theory Spec2Isabelle
  imports Main "HOL-Library.AList" "HOL-Library.Sublist"
begin

section \<open>JavaScript strings and objects\<close>

text \<open>
  A JavaScript string is modelled as a \<^typ>\<open>string\<close>: one \<^typ>\<open>char\<close> per code unit, for
  the code units below 256.

  A plain object is the list of its own properties in the order in which the language
  enumerates them: first the keys that are array indices (the decimal numerals of the
  integers from 0 to 4294967294, without a leading zero), in ascending order, then the
  other keys in the order in which they were created.  The assignment \<open>obj[k] = v\<close> is
  \<open>setProperty\<close>: it overwrites the value of an existing key in place, puts a new array
  index at its place among the indices and appends any other new key at the end.  The
  key \<open>__proto__\<close> is not a property of the object: an assignment to it reaches the
  accessor that every plain object inherits, which sets the prototype or does nothing,
  and no own property is created.  A computed key in an object literal is read as the
  language defines it.
\<close>

type_synonym StringMap = "(string \<times> string) list"

definition isDigit :: "char \<Rightarrow> bool" where
  "isDigit c = (let n = (of_char c :: nat) in 48 \<le> n \<and> n \<le> 57)"

definition indexValue :: "string \<Rightarrow> nat" where
  "indexValue s = fold (\<lambda>c n. 10 * n + (of_char c - 48)) s 0"

definition isArrayIndex :: "string \<Rightarrow> bool" where
  "isArrayIndex s =
     (case s of
        [] \<Rightarrow> False
      | c # cs \<Rightarrow> list_all isDigit s \<and> (if c = CHR ''0'' then cs = [] else True)
                  \<and> indexValue s \<le> 4294967294)"

fun insertIndex :: "string \<Rightarrow> 'v \<Rightarrow> (string \<times> 'v) list \<Rightarrow> (string \<times> 'v) list" where
  "insertIndex k v [] = [(k, v)]"
| "insertIndex k v (p # ps) =
     (if isArrayIndex (fst p) \<and> indexValue (fst p) < indexValue k
      then p # insertIndex k v ps
      else (k, v) # p # ps)"

definition setProperty :: "string \<Rightarrow> 'v \<Rightarrow> (string \<times> 'v) list \<Rightarrow> (string \<times> 'v) list" where
  "setProperty k v obj =
     (if k = ''__proto__'' then obj
      else if k \<in> fst ` set obj then AList.update k v obj
      else if isArrayIndex k then insertIndex k v obj
      else obj @ [(k, v)])"

text \<open>\<open>String.prototype.split\<close> with a one-character separator: never the empty list.\<close>

fun split_on :: "char \<Rightarrow> string \<Rightarrow> string list" where
  "split_on c [] = [[]]"
| "split_on c (x # xs) =
     (if x = c then [] # split_on c xs
      else (case split_on c xs of [] \<Rightarrow> [[x]] | p # ps \<Rightarrow> (x # p) # ps))"

text \<open>
  White space of \<open>String.prototype.trim\<close> among the code units below 256: tab, line feed,
  vertical tab, form feed, carriage return, space and no-break space.
\<close>

definition isWhiteSpace :: "char \<Rightarrow> bool" where
  "isWhiteSpace c \<longleftrightarrow> of_char c \<in> {9, 10, 11, 12, 13, 32, 160 :: nat}"

definition trim :: "string \<Rightarrow> string" where
  "trim s = rev (dropWhile isWhiteSpace (rev (dropWhile isWhiteSpace s)))"

text \<open>
  Modelled from the spec: \<open>assign(target, ...sources)\<close> of the \<open>facade/lang\<close> module,
  which is not among the sources at hand.  The spec has the sources "merged", and "any
  key present there overrides the generated behavior", which is the behaviour of
  \<open>Object.assign\<close>: every property of every source is written to the target, the sources
  from left to right.
\<close>

definition assign :: "(string \<times> 'v) list \<Rightarrow> (string \<times> 'v) list list \<Rightarrow> (string \<times> 'v) list" where
  "assign target sources =
     fold (\<lambda>source acc. fold (\<lambda>(k, v). setProperty k v) source acc) sources target"


section \<open>Binding synthesizer\<close>

text \<open>
  \<open>_extractBindings(bindings, typeSymbol = '', SPLIT_BY = ':')\<close>.  No caller passes the third
  argument, so the separator is the constant.  The destructuring
  \<open>const [name, alias = ''] = ...\<close> reads the first two parts; a missing second part is
  \<open>undefined\<close> and takes the default.
\<close>

definition SPLIT_BY :: char where
  "SPLIT_BY = CHR '':''"

definition bindingParts :: "string \<Rightarrow> string list" where
  "bindingParts binding = map trim (split_on SPLIT_BY binding)"

definition bindingName :: "string \<Rightarrow> string" where
  "bindingName binding = (case bindingParts binding of [] \<Rightarrow> ''undefined'' | name # _ \<Rightarrow> name)"

definition bindingAlias :: "string \<Rightarrow> string" where
  "bindingAlias binding = (case bindingParts binding of name # alias # _ \<Rightarrow> alias | _ \<Rightarrow> [])"

definition extractBindings :: "string list \<Rightarrow> string \<Rightarrow> StringMap" where
  "extractBindings bindings typeSymbol =
     fold (\<lambda>binding acc. setProperty (bindingName binding) (typeSymbol @ bindingAlias binding) acc)
       bindings []"

text \<open>
  \<open>_createComponentBindings(inputs = [], attrs = [], outputs = [])\<close>: an argument that is
  \<open>undefined\<close> (\<^const>\<open>None\<close>) takes the default.
\<close>

definition orEmpty :: "'a list option \<Rightarrow> 'a list" where
  "orEmpty xs = (case xs of None \<Rightarrow> [] | Some ys \<Rightarrow> ys)"

definition createComponentBindings ::
  "string list option \<Rightarrow> string list option \<Rightarrow> string list option \<Rightarrow> StringMap" where
  "createComponentBindings inputs attrs outputs =
     (let inputsBindings = extractBindings (orEmpty inputs) ''='';
          attrsBindings = extractBindings (orEmpty attrs) ''@'';
          outputsBindings = extractBindings (orEmpty outputs) ''&''
      in assign [] [inputsBindings, attrsBindings, outputsBindings])"


section \<open>Errors\<close>

text \<open>
  Every \<open>throw\<close> of the module is a constructor; \<open>TypeError\<close> is the error the JavaScript
  runtime raises itself (destructuring \<open>null\<close>, reading a property of \<open>undefined\<close>,
  calling a value that is not a function); \<open>UserError\<close> is an error thrown by code of the
  application (a hook or callback body).  The messages carrying the type's name keep it.
\<close>

datatype error =
    CannotHaveBothTemplateAndTemplateUrl
  | CheckedHooksWithoutQueries string
  | ContentHooksWithoutTransclusion string
  | ViewHooksOnDirective string
  | OnlyEventSupported
  | QueryTypeMustBeFromViewOrFromContent
  | TypeError
  | UserError

text \<open>\<open>Array.prototype.forEach\<close>/\<open>reduce\<close> with a body that may throw: the first error ends the loop.\<close>

fun foldE :: "('a \<Rightarrow> 'b \<Rightarrow> error + 'b) \<Rightarrow> 'a list \<Rightarrow> 'b \<Rightarrow> error + 'b" where
  "foldE f [] acc = Inr acc"
| "foldE f (x # xs) acc = (case f x acc of Inl e \<Rightarrow> Inl e | Inr acc' \<Rightarrow> foldE f xs acc')"


section \<open>Host spec processor\<close>

record HostBindingsProcessed =
  classes :: StringMap
  attributes :: StringMap
  properties :: StringMap

type_synonym HostListenersProcessed = "(string \<times> string list) list"

record HostProcessed =
  hostStatic :: StringMap
  hostBindings :: HostBindingsProcessed
  hostListeners :: HostListenersProcessed

text \<open>
  The regular expressions of \<open>_processHost\<close>, each written out as the test it performs.
  The dot of a JavaScript regular expression matches any code unit but a line terminator
  (line feed and carriage return, among the code units below 256).
\<close>

definition isLineTerminator :: "char \<Rightarrow> bool" where
  "isLineTerminator c \<longleftrightarrow> of_char c \<in> {10, 13 :: nat}"

text \<open>\<open>/^L.*R$/\<close> for the two delimiters \<open>L\<close> and \<open>R\<close>.\<close>

definition delimitedBy :: "char \<Rightarrow> char \<Rightarrow> string \<Rightarrow> bool" where
  "delimitedBy l r s =
     (case s of
        [] \<Rightarrow> False
      | x # xs \<Rightarrow> x = l \<and> xs \<noteq> [] \<and> last xs = r \<and> \<not> list_ex isLineTerminator (butlast xs))"

text \<open>\<open>HOST_BINDING_KEY_REGEX = /^\[.*\]$/\<close> and \<open>HOST_LISTENER_KEY_REGEX = /^\(.*\)$/\<close>.\<close>

definition isHostBinding :: "string \<Rightarrow> bool" where
  "isHostBinding hostKey = delimitedBy (CHR ''['') (CHR '']'') hostKey"

definition isHostListener :: "string \<Rightarrow> bool" where
  "isHostListener hostKey = delimitedBy (CHR ''('') (CHR '')'') hostKey"

definition isStaticHost :: "string \<Rightarrow> bool" where
  "isStaticHost hostKey = (\<not> (isHostBinding hostKey \<or> isHostListener hostKey))"

text \<open>\<open>hostKey.replace( /\[|\]|\(|\)/g, '' )\<close>: every bracket and parenthesis is removed.\<close>

definition stripBindingOrListenerBrackets :: "string \<Rightarrow> string" where
  "stripBindingOrListenerBrackets hostKey =
     filter (\<lambda>c. c \<noteq> CHR ''['' \<and> c \<noteq> CHR '']'' \<and> c \<noteq> CHR ''('' \<and> c \<noteq> CHR '')'') hostKey"

text \<open>
  \<open>/^class./\<close> and \<open>/^attr./\<close>: the word, then one more code unit matched by the dot, which
  the source does not escape.  \<open>test\<close> says whether the expression matches,
  \<open>replace(.., '')\<close> removes the match.
\<close>

definition regexWordDot_test :: "string \<Rightarrow> string \<Rightarrow> bool" where
  "regexWordDot_test word s =
     (take (length word) s = word \<and>
      (case drop (length word) s of [] \<Rightarrow> False | c # _ \<Rightarrow> \<not> isLineTerminator c))"

definition regexWordDot_remove :: "string \<Rightarrow> string \<Rightarrow> string" where
  "regexWordDot_remove word s = (if regexWordDot_test word s then drop (length word + 1) s else s)"

definition HAS_CLASS_REGEX :: string where
  "HAS_CLASS_REGEX = ''class''"

definition HAS_ATTR_REGEX :: string where
  "HAS_ATTR_REGEX = ''attr''"

text \<open>
  \<open>/^(\w+)\(([$\w.,]*)\)$/.exec( cbString )\<close>: the two groups, or \<open>null\<close>.  Neither
  parenthesis is a word character or an argument character, so the first group is the
  longest run of word characters and the second group is all that lies between the
  parenthesis after it and the closing parenthesis that ends the string.
\<close>

definition isWordChar :: "char \<Rightarrow> bool" where
  "isWordChar c =
     (let n = (of_char c :: nat)
      in (48 \<le> n \<and> n \<le> 57) \<or> (65 \<le> n \<and> n \<le> 90) \<or> n = 95 \<or> (97 \<le> n \<and> n \<le> 122))"

definition isArgChar :: "char \<Rightarrow> bool" where
  "isArgChar c = (c = CHR ''$'' \<or> isWordChar c \<or> c = CHR ''.'' \<or> c = CHR '','')"

definition execCallbackRegex :: "string \<Rightarrow> (string \<times> string) option" where
  "execCallbackRegex cbString =
     (let cbMethodName = takeWhile isWordChar cbString
      in case dropWhile isWordChar cbString of
           [] \<Rightarrow> None
         | c # rest \<Rightarrow>
             if cbMethodName \<noteq> [] \<and> c = CHR ''('' \<and> rest \<noteq> [] \<and> last rest = CHR '')''
                \<and> list_all isArgChar (butlast rest)
             then Some (cbMethodName, butlast rest)
             else None)"

text \<open>
  \<open>processHostListenerCallback\<close>: destructuring the \<open>null\<close> of a failed match throws a
  TypeError.  The arguments are split at the commas, the empty ones dropped, the rest
  trimmed.
\<close>

definition processHostListenerCallback :: "string \<times> string \<Rightarrow> error + (string \<times> string list)" where
  "processHostListenerCallback hostListener =
     (case hostListener of (eventName, cbString) \<Rightarrow>
        (case execCallbackRegex cbString of
           None \<Rightarrow> Inl TypeError
         | Some (cbMethodName, cbMethodArgs) \<Rightarrow>
             Inr (eventName,
                  cbMethodName # map trim (filter (\<lambda>argument. argument \<noteq> []) (split_on (CHR '','') cbMethodArgs)))))"

text \<open>
  The body of the \<open>forEach\<close> over the host entries; the accumulator holds
  \<open>hostStatic\<close>, \<open>hostBindingsRaw\<close> and \<open>hostListeners\<close>.
\<close>

definition processHostEntry ::
  "string \<times> string \<Rightarrow> StringMap \<times> StringMap \<times> HostListenersProcessed
     \<Rightarrow> error + (StringMap \<times> StringMap \<times> HostListenersProcessed)" where
  "processHostEntry entry acc =
     (case entry of (hostKey, hostValue) \<Rightarrow>
      case acc of (statics, hostBindingsRaw, listeners) \<Rightarrow>
        let hostMap = (stripBindingOrListenerBrackets hostKey, hostValue)
        in if isStaticHost hostKey
           then Inr (setProperty (fst hostMap) (snd hostMap) statics, hostBindingsRaw, listeners)
           else if isHostBinding hostKey
           then Inr (statics, hostBindingsRaw @ [hostMap], listeners)
           else if isHostListener hostKey
           then (case processHostListenerCallback hostMap of
                   Inl e \<Rightarrow> Inl e
                 | Inr (eventName, cb) \<Rightarrow> Inr (statics, hostBindingsRaw, setProperty eventName cb listeners))
           else Inr acc)"

text \<open>The body of the \<open>reduce\<close> over \<open>hostBindingsRaw\<close>.\<close>

definition classifyHostBinding :: "string \<times> string \<Rightarrow> HostBindingsProcessed \<Rightarrow> HostBindingsProcessed" where
  "classifyHostBinding hostBindingObj acc =
     (case hostBindingObj of (hostObjKey, hostObjValue) \<Rightarrow>
        if regexWordDot_test HAS_CLASS_REGEX hostObjKey
        then acc\<lparr>classes := setProperty (regexWordDot_remove HAS_CLASS_REGEX hostObjKey) hostObjValue (classes acc)\<rparr>
        else if regexWordDot_test HAS_ATTR_REGEX hostObjKey
        then acc\<lparr>attributes := setProperty (regexWordDot_remove HAS_ATTR_REGEX hostObjKey) hostObjValue (attributes acc)\<rparr>
        else acc\<lparr>properties := setProperty hostObjKey hostObjValue (properties acc)\<rparr>)"

text \<open>
  \<open>_processHost( host )\<close>: \<open>undefined\<close> (\<^const>\<open>None\<close>) when no host mapping is supplied.
  The host mapping is given in the order in which \<open>StringMapWrapper.forEach\<close> visits it.
\<close>

definition processHost :: "StringMap option \<Rightarrow> error + HostProcessed option" where
  "processHost host =
     (case host of
        None \<Rightarrow> Inr None
      | Some entries \<Rightarrow>
          (case foldE processHostEntry entries ([], [], []) of
             Inl e \<Rightarrow> Inl e
           | Inr (statics, hostBindingsRaw, listeners) \<Rightarrow>
               Inr (Some \<lparr>hostStatic = statics,
                          hostBindings = fold classifyHostBinding hostBindingsRaw
                                           \<lparr>classes = [], attributes = [], properties = []\<rparr>,
                          hostListeners = listeners\<rparr>)))"


section \<open>Descriptors\<close>

text \<open>
  Modelled from the spec: the metadata classes (\<open>metadata_directives\<close>, \<open>metadata_di\<close>) and
  the hook flags of the reflection helper, which the source imports and which are not
  among the sources at hand.  A descriptor has "selector, inputs/outputs/attrs (ordered
  sequences of name[:alias] strings), host (mapping of raw host-key to expression
  string), queries (mapping of property-name to QuerySpec), legacy (raw override
  mapping merged last)", a component adds "template" and "templateUrl"; the
  hook-presence flags are "booleans per lifecycle-hook name".  A field the descriptor
  leaves out is \<open>undefined\<close> (\<^const>\<open>None\<close>).  The query classes are the four the source
  tests with \<open>instanceof\<close> and their two base classes, each with its selector.
\<close>

datatype QueryMetadata =
    QueryMetadata string
  | ViewQueryMetadata string
  | ViewChildMetadata string
  | ViewChildrenMetadata string
  | ContentChildMetadata string
  | ContentChildrenMetadata string

text \<open>A raw value of the \<open>legacy\<close> mapping, which the module never looks into.\<close>

datatype jsraw = RawBool bool | RawString string | RawNumber int | RawObject nat

fun truthy :: "jsraw \<Rightarrow> bool" where
  "truthy (RawBool b) = b"
| "truthy (RawString s) = (s \<noteq> [])"
| "truthy (RawNumber n) = (n \<noteq> 0)"
| "truthy (RawObject _) = True"

record DirectiveMetadata =
  selector :: string
  inputs :: "string list option"
  attrs :: "string list option"
  outputs :: "string list option"
  host :: "StringMap option"
  queries :: "(string \<times> QueryMetadata) list"
  legacy :: "(string \<times> jsraw) list"

record ComponentMetadata = DirectiveMetadata +
  template :: "string option"
  templateUrl :: "string option"

text \<open>\<open>metadata instanceof ComponentMetadata\<close> is the constructor.\<close>

datatype metadata = IsDirective DirectiveMetadata | IsComponent ComponentMetadata

fun asDirective :: "metadata \<Rightarrow> DirectiveMetadata" where
  "asDirective (IsDirective d) = d"
| "asDirective (IsComponent c) = DirectiveMetadata.truncate c"

record ImplementedLifeCycleHooks =
  ngOnInit :: bool
  ngAfterContentInit :: bool
  ngAfterContentChecked :: bool
  ngAfterViewInit :: bool
  ngAfterViewChecked :: bool
  ngOnDestroy :: bool

text \<open>A string used as a condition: the empty string and \<open>undefined\<close> are falsy.\<close>

definition truthyString :: "string option \<Rightarrow> bool" where
  "truthyString s = (case s of None \<Rightarrow> False | Some t \<Rightarrow> t \<noteq> [])"

text \<open>\<open>StringMapWrapper.getValueFromPath( metadata, 'legacy.transclude' )\<close> as a condition.\<close>

definition legacyTransclude :: "DirectiveMetadata \<Rightarrow> bool" where
  "legacyTransclude m = (case map_of (legacy m) ''transclude'' of None \<Rightarrow> False | Some v \<Rightarrow> truthy v)"


section \<open>Link functions\<close>

text \<open>
  The link functions are closures; each is represented by its name and the variables it
  captures (\<open>lfHooks\<close>, \<open>requiredCtrlVarNames\<close>, \<open>hostProcessed\<close>, and the part of the metadata
  it reads).  \<open>staticLink\<close> is the \<open>link\<close> a type defines as a static method, \<open>noop\<close> the
  function of that name.
\<close>

datatype link_fn =
    noop
  | preLink "string list"
  | componentPostLink ImplementedLifeCycleHooks "string list" "HostProcessed option"
      "(string \<times> QueryMetadata) list"
  | directivePostLink ImplementedLifeCycleHooks "string list" "HostProcessed option"
      DirectiveMetadata
  | staticLink

datatype link = LinkFn link_fn | PrePost link_fn link_fn

text \<open>
  \<open>_createLink( type, metadata, lfHooks, requireMap )\<close>; \<open>stringify( type )\<close> is the type's
  name.  When queries are declared it also stores \<open>noop\<close> as
  \<open>type.prototype._ngOnChildrenChanged\<close>, which is where a controller instance starts
  (see \<open>newInstance\<close> below).
\<close>

definition createPostLink ::
  "string \<Rightarrow> metadata \<Rightarrow> ImplementedLifeCycleHooks \<Rightarrow> string list \<Rightarrow> HostProcessed option
     \<Rightarrow> error + link_fn" where
  "createPostLink typeName md lfHooks requiredCtrlVarNames hostProcessed =
     (case md of
        IsComponent c \<Rightarrow>
          if (ngAfterContentInit lfHooks \<or> ngAfterContentChecked lfHooks)
             \<and> \<not> legacyTransclude (DirectiveMetadata.truncate c)
          then Inl (ContentHooksWithoutTransclusion typeName)
          else Inr (componentPostLink lfHooks requiredCtrlVarNames hostProcessed (queries c))
      | IsDirective d \<Rightarrow>
          if ngAfterViewInit lfHooks \<or> ngAfterViewChecked lfHooks
          then Inl (ViewHooksOnDirective typeName)
          else Inr (directivePostLink lfHooks requiredCtrlVarNames hostProcessed d))"

definition createLink ::
  "string \<Rightarrow> metadata \<Rightarrow> ImplementedLifeCycleHooks \<Rightarrow> StringMap \<Rightarrow> error + link" where
  "createLink typeName md lfHooks requireMap =
     (if (ngAfterContentChecked lfHooks \<or> ngAfterViewChecked lfHooks)
         \<and> length (queries (asDirective md)) = 0
      then Inl (CheckedHooksWithoutQueries typeName)
      else
        let requiredCtrlVarNames = map fst requireMap
        in case processHost (host (asDirective md)) of
             Inl e \<Rightarrow> Inl e
           | Inr hostProcessed \<Rightarrow>
               (case createPostLink typeName md lfHooks requiredCtrlVarNames hostProcessed of
                  Inl e \<Rightarrow> Inl e
                | Inr postLink \<Rightarrow>
                    Inr (if ngOnInit lfHooks
                         then PrePost (preLink requiredCtrlVarNames) postLink
                         else LinkFn postLink)))"


section \<open>Descriptor compiler\<close>

text \<open>The values a directive definition object holds.\<close>

datatype ddo_value =
    Controller string
  | NoopFunction
  | Strings "string list"
  | EmptyObject
  | Bindings StringMap
  | Str string
  | Boolean bool
  | Link link
  | CompileFunction
  | Raw jsraw

type_synonym ddo = "(string \<times> ddo_value) list"

definition ddoShell :: ddo where
  "ddoShell = [(''require'', Strings []), (''controller'', NoopFunction),
               (''link'', Link (PrePost noop noop))]"

definition controllerAs :: string where
  "controllerAs = ''$ctrl''"

definition transclude :: bool where
  "transclude = False"

text \<open>\<open>_createRequires\<close>: the directive's own name, then the values of the require map.\<close>

definition createRequires :: "StringMap \<Rightarrow> string \<Rightarrow> string list" where
  "createRequires requireMap directiveName = directiveName # map snd requireMap"

definition createDDO :: "ddo \<Rightarrow> (string \<times> jsraw) list \<Rightarrow> ddo" where
  "createDDO d legacyDDO = assign [] [ddoShell, d, map (\<lambda>(k, v). (k, Raw v)) legacyDDO]"

text \<open>
  What the collaborators of \<open>createFromType\<close> return for a type: \<open>stringify\<close>, the
  directive resolver (\<open>resolve\<close>, \<open>getRequiredDirectivesMap\<close>),
  \<open>resolveDirectiveNameFromSelector\<close> on the selector, \<open>resolveImplementedLifeCycleHooks\<close>,
  and whether the type has the static methods \<open>compile\<close> and \<open>link\<close>.
\<close>

record Type =
  typeName :: string
  resolved :: metadata
  directiveName :: string
  requireMap :: StringMap
  lfHooks :: ImplementedLifeCycleHooks
  hasStaticCompile :: bool
  hasStaticLink :: bool

text \<open>\<open>if ( value ) { obj[key] = value }\<close> for a string value.\<close>

definition setIfTruthy :: "string \<Rightarrow> string option \<Rightarrow> ddo \<Rightarrow> ddo" where
  "setIfTruthy key v obj =
     (case v of None \<Rightarrow> obj | Some t \<Rightarrow> if t \<noteq> [] then setProperty key (Str t) obj else obj)"

definition componentSpecificDDO :: "ComponentMetadata \<Rightarrow> link \<Rightarrow> error + ddo" where
  "componentSpecificDDO c l =
     (let specific = [(''scope'', EmptyObject),
                      (''bindToController'', Bindings (createComponentBindings (inputs c) (attrs c) (outputs c))),
                      (''controllerAs'', Str controllerAs),
                      (''link'', Link l),
                      (''transclude'', Boolean transclude)]
      in if truthyString (template c) \<and> truthyString (templateUrl c)
         then Inl CannotHaveBothTemplateAndTemplateUrl
         else Inr (setIfTruthy ''templateUrl'' (templateUrl c)
                     (setIfTruthy ''template'' (template c) specific)))"

text \<open>
  \<open>createFromType( type )\<close> returns the name and the factory; the factory is the function
  that returns the directive definition object given here.  In the component branch the
  link is created (and may throw) before the two templates are looked at.
\<close>

definition createFromType :: "Type \<Rightarrow> error + (string \<times> ddo)" where
  "createFromType type =
     (let md = resolved type;
          basicDDO = [(''controller'', Controller (typeName type)),
                      (''require'', Strings (createRequires (requireMap type) (directiveName type)))]
      in case createLink (typeName type) md (lfHooks type) (requireMap type) of
           Inl e \<Rightarrow> Inl e
         | Inr l \<Rightarrow>
             (case (case md of
                      IsComponent c \<Rightarrow> componentSpecificDDO c l
                    | IsDirective d \<Rightarrow> Inr [(''link'', Link l)]) of
                Inl e \<Rightarrow> Inl e
              | Inr specific \<Rightarrow>
                  let d0 = assign [] [basicDDO, specific];
                      d1 = (if hasStaticCompile type then setProperty ''compile'' CompileFunction d0 else d0);
                      d2 = (if hasStaticLink type then setProperty ''link'' (Link (LinkFn staticLink)) d1 else d1)
                  in Inr (directiveName type, createDDO d2 (legacy (asDirective md)))))"


section \<open>Listener parameters\<close>






section \<open>Controller instances at run time\<close>

text \<open>
  \<open>DOM_RESOLVER_TYPES\<close> and, with the same two members, \<open>SEMAPHORE_PROP_NAMES\<close>.
\<close>

datatype dom_type = DOM_view | DOM_content

text \<open>
  Modelled from the spec: the enumeration \<open>ChildrenChangeHook\<close> of
  \<open>directive_lifecycle_interfaces\<close>, which is not among the sources at hand.  The kind is
  one of "FromView, FromContent", and "calling the notifier with an unrecognized kind is
  a fatal configuration error"; the third constructor is any other value.
\<close>

datatype ChildrenChangeHook = FromView | FromContent | UnrecognizedHook nat

datatype hook =
  OnInit | AfterContentInit | AfterContentChecked | AfterViewInit | AfterViewChecked | OnDestroy

text \<open>
  The functions that are called at run time, by what they are: the resolver
  \<open>_resolveChildrenFactory( element, ctrl, key, selector, type, firstOnly )\<close> returns, a
  lifecycle method of the controller, a function \<open>_getParentCheckNotifiers\<close> returned, the
  deregistration function of a watcher or observer (for a host binding of a type and key,
  for an input or attribute binding of a property), and any other function.
\<close>

datatype fn =
    ResolveChildren string string dom_type bool
  | CtrlMethod hook
  | ParentCheckNotifier nat
  | HostBindingWatcher string string string
  | InputWatcher string string
  | AttrObserver string string
  | OtherFunction nat

text \<open>A value handed over as a callback: \<open>undefined\<close>, a function, or any other value.\<close>

datatype jsval = JsUndefined | JsFunction fn | JsOther jsraw

text \<open>
  Modelled from the spec: \<open>isFunction\<close> of the \<open>facade/lang\<close> module, which is not among
  the sources at hand.  The completion callbacks of the spec are functions ("lifecycle
  hooks"), and the test is the one its name says: the value is a function.
\<close>

fun isFunction :: "jsval \<Rightarrow> bool" where
  "isFunction (JsFunction _) = True"
| "isFunction _ = False"

text \<open>The map \<open>{ view: [...], content: [...] }\<close> of resolvers.\<close>

record ResolverMap =
  view :: "fn list"
  content :: "fn list"

fun resolversOf :: "ResolverMap \<Rightarrow> dom_type \<Rightarrow> fn list" where
  "resolversOf m DOM_view = view m"
| "resolversOf m DOM_content = content m"

text \<open>
  The closure handed to \<open>scope.$evalAsync\<close>: it captures the kind (which names both the
  semaphore property and the resolver bucket), the completion callbacks and the resolver
  map.
\<close>

record deferred =
  kind :: dom_type
  onFirstChangeDoneCb :: "jsval list"
  domResolverCb :: ResolverMap

text \<open>
  The controller instance, as far as the module reads it: which lifecycle methods it has.
\<close>

type_synonym DirectiveCtrl = ImplementedLifeCycleHooks

fun hasMethod :: "DirectiveCtrl \<Rightarrow> hook \<Rightarrow> bool" where
  "hasMethod c OnInit = ngOnInit c"
| "hasMethod c AfterContentInit = ngAfterContentInit c"
| "hasMethod c AfterContentChecked = ngAfterContentChecked c"
| "hasMethod c AfterViewInit = ngAfterViewInit c"
| "hasMethod c AfterViewChecked = ngAfterViewChecked c"
| "hasMethod c OnDestroy = ngOnDestroy c"

text \<open>The closure handed to \<open>scope.$on( '$destroy', ... )\<close>, with the variables it captures.\<close>

record destroyHandler =
  destroyCtrl :: DirectiveCtrl
  implementsNgOnDestroy :: bool
  watchersToDispose :: "fn list"
  observersToDispose :: "fn list"

text \<open>The property \<open>ctrl._ngOnChildrenChanged\<close>: absent, \<open>noop\<close>, or the notifier of \<open>_setQuery\<close>.\<close>

datatype notifier = NoNotifier | NoopNotifier | Notifier ResolverMap

text \<open>What happens, in order.\<close>

datatype event =
    Called fn
  | SemaphoreWritten dom_type bool
  | RequiredCtrlsAssigned "string list"
  | HostStaticAttributesSet StringMap
  | WatchRegistered fn
  | OutputBound string string
  | ListenerRegistered string "string list"
  | ElementOff

text \<open>
  One controller instance with its scope and element: the notifier property and the two
  semaphore properties of the controller, the scope's queue of deferred tasks and its
  \<open>$destroy\<close> listeners, and the trace of what has happened so far.
\<close>

record world =
  ngOnChildrenChangedProp :: notifier
  readViewChildrenOrderScheduled :: bool
  readContentChildrenOrderScheduled :: bool
  asyncQueue :: "deferred list"
  destroyListeners :: "destroyHandler list"
  trace :: "event list"

text \<open>A call returns (\<open>Done\<close>) or throws (\<open>Threw\<close>); the state it leaves behind is kept in both cases.\<close>

datatype outcome = Done world | Threw error world

fun worldOf :: "outcome \<Rightarrow> world" where
  "worldOf (Done w) = w"
| "worldOf (Threw e w) = w"

fun threw :: "outcome \<Rightarrow> bool" where
  "threw (Done w) = False"
| "threw (Threw e w) = True"

fun andThen :: "outcome \<Rightarrow> (world \<Rightarrow> outcome) \<Rightarrow> outcome" where
  "andThen (Done w) f = f w"
| "andThen (Threw e w) f = Threw e w"

fun forEach :: "('a \<Rightarrow> world \<Rightarrow> outcome) \<Rightarrow> 'a list \<Rightarrow> world \<Rightarrow> outcome" where
  "forEach f [] w = Done w"
| "forEach f (x # xs) w = andThen (f x w) (forEach f xs)"

definition record_event :: "event \<Rightarrow> world \<Rightarrow> world" where
  "record_event e w = w\<lparr>trace := trace w @ [e]\<rparr>"

fun semaphore :: "dom_type \<Rightarrow> world \<Rightarrow> bool" where
  "semaphore DOM_view w = readViewChildrenOrderScheduled w"
| "semaphore DOM_content w = readContentChildrenOrderScheduled w"

fun setSemaphore :: "dom_type \<Rightarrow> bool \<Rightarrow> world \<Rightarrow> world" where
  "setSemaphore DOM_view b w =
     record_event (SemaphoreWritten DOM_view b) (w\<lparr>readViewChildrenOrderScheduled := b\<rparr>)"
| "setSemaphore DOM_content b w =
     record_event (SemaphoreWritten DOM_content b) (w\<lparr>readContentChildrenOrderScheduled := b\<rparr>)"

text \<open>\<open>scope.$evalAsync\<close> of the host runtime: the task joins the end of the queue.\<close>

definition evalAsync :: "deferred \<Rightarrow> world \<Rightarrow> world" where
  "evalAsync d w = w\<lparr>asyncQueue := asyncQueue w @ [d]\<rparr>"


subsection \<open>The children-change notifier\<close>

text \<open>
  \<open>_ngOnChildrenChanged( type, onFirstChangeDoneCb = [], domResolverCb = onChildrenChangedCb )\<close>,
  the function \<open>_setQuery\<close> creates; \<open>onChildrenChangedCb\<close> is the resolver map it captures.
  An argument left out is \<^const>\<open>None\<close>.
\<close>

fun hookDomType :: "ChildrenChangeHook \<Rightarrow> dom_type option" where
  "hookDomType FromView = Some DOM_view"
| "hookDomType FromContent = Some DOM_content"
| "hookDomType (UnrecognizedHook _) = None"

definition ngOnChildrenChanged ::
  "ResolverMap \<Rightarrow> ChildrenChangeHook \<Rightarrow> jsval list option \<Rightarrow> ResolverMap option \<Rightarrow> world \<Rightarrow> outcome" where
  "ngOnChildrenChanged onChildrenChangedCb type cbs resolvers w =
     (case hookDomType type of
        None \<Rightarrow> Threw QueryTypeMustBeFromViewOrFromContent w
      | Some k \<Rightarrow>
          if semaphore k w then Done w
          else Done (evalAsync \<lparr>kind = k,
                                onFirstChangeDoneCb = orEmpty cbs,
                                domResolverCb = (case resolvers of None \<Rightarrow> onChildrenChangedCb | Some r \<Rightarrow> r)\<rparr>
                       (setSemaphore k True w)))"

text \<open>The call \<open>ctrl._ngOnChildrenChanged( ... )\<close>, through the property.\<close>

definition callNgOnChildrenChanged ::
  "ChildrenChangeHook \<Rightarrow> jsval list option \<Rightarrow> ResolverMap option \<Rightarrow> world \<Rightarrow> outcome" where
  "callNgOnChildrenChanged type cbs resolvers w =
     (case ngOnChildrenChangedProp w of
        NoNotifier \<Rightarrow> Threw TypeError w
      | NoopNotifier \<Rightarrow> Done w
      | Notifier onChildrenChangedCb \<Rightarrow> ngOnChildrenChanged onChildrenChangedCb type cbs resolvers w)"


subsection \<open>Calling functions\<close>

text \<open>
  The bodies of the functions are code of the application or of other modules.  What
  such a body can do to the state modelled here is call the notifier of this controller
  (as the controllers of queried children do) or throw; a behaviour gives, for a function
  and the state it is called in, the statements its body runs.  The theorems hold for
  every behaviour.
\<close>

datatype stmt =
    CallNgOnChildrenChanged ChildrenChangeHook "jsval list option" "ResolverMap option"
  | ThrowError

type_synonym behaviour = "fn \<Rightarrow> world \<Rightarrow> stmt list"

fun runStmt :: "stmt \<Rightarrow> world \<Rightarrow> outcome" where
  "runStmt (CallNgOnChildrenChanged type cbs resolvers) w = callNgOnChildrenChanged type cbs resolvers w"
| "runStmt ThrowError w = Threw UserError w"

definition invokeFn :: "behaviour \<Rightarrow> fn \<Rightarrow> world \<Rightarrow> outcome" where
  "invokeFn beh f w = forEach runStmt (beh f (record_event (Called f) w)) (record_event (Called f) w)"

text \<open>The call \<open>v()\<close> of any value: a value that is not a function cannot be called.\<close>

fun invoke :: "behaviour \<Rightarrow> jsval \<Rightarrow> world \<Rightarrow> outcome" where
  "invoke beh (JsFunction f) w = invokeFn beh f w"
| "invoke beh v w = Threw TypeError w"


subsection \<open>Queries and the deferred batch\<close>

text \<open>\<open>_getOnChildrenResolvers\<close>: one resolver for each query of the four classes.\<close>

fun addResolver :: "string \<times> QueryMetadata \<Rightarrow> ResolverMap \<Rightarrow> ResolverMap" where
  "addResolver (key, ViewChildMetadata sel) m = m\<lparr>view := view m @ [ResolveChildren key sel DOM_view True]\<rparr>"
| "addResolver (key, ViewChildrenMetadata sel) m = m\<lparr>view := view m @ [ResolveChildren key sel DOM_view False]\<rparr>"
| "addResolver (key, ContentChildMetadata sel) m = m\<lparr>content := content m @ [ResolveChildren key sel DOM_content True]\<rparr>"
| "addResolver (key, ContentChildrenMetadata sel) m = m\<lparr>content := content m @ [ResolveChildren key sel DOM_content False]\<rparr>"
| "addResolver (key, QueryMetadata sel) m = m"
| "addResolver (key, ViewQueryMetadata sel) m = m"

definition getOnChildrenResolvers :: "(string \<times> QueryMetadata) list \<Rightarrow> ResolverMap" where
  "getOnChildrenResolvers qs = fold addResolver qs \<lparr>view = [], content = []\<rparr>"

text \<open>\<open>_setQuery( scope, element, ctrl, queries )\<close>.\<close>

definition setQuery :: "(string \<times> QueryMetadata) list \<Rightarrow> world \<Rightarrow> world" where
  "setQuery qs w =
     (if length qs = 0 then w
      else (setSemaphore DOM_view False (setSemaphore DOM_content False w))
             \<lparr>ngOnChildrenChangedProp := Notifier (getOnChildrenResolvers qs)\<rparr>)"

text \<open>The two loops of the deferred task, and the task.\<close>

definition runResolvers :: "behaviour \<Rightarrow> fn list \<Rightarrow> world \<Rightarrow> outcome" where
  "runResolvers beh cbs w = forEach (invokeFn beh) cbs w"

definition runCompletionCallbacks :: "behaviour \<Rightarrow> jsval list \<Rightarrow> world \<Rightarrow> outcome" where
  "runCompletionCallbacks beh cbs w =
     forEach (\<lambda>cb w'. if isFunction cb then invoke beh cb w' else Done w') cbs w"

definition runDeferred :: "behaviour \<Rightarrow> deferred \<Rightarrow> world \<Rightarrow> outcome" where
  "runDeferred beh d w =
     andThen (runResolvers beh (resolversOf (domResolverCb d) (kind d)) (setSemaphore (kind d) False w))
       (runCompletionCallbacks beh (onFirstChangeDoneCb d))"

text \<open>
  The host runtime takes the first task off the queue and runs it; an error the task
  throws goes to the runtime's exception handler, and the queue goes on.
\<close>

definition runNextAsync :: "behaviour \<Rightarrow> world \<Rightarrow> outcome" where
  "runNextAsync beh w =
     (case asyncQueue w of
        [] \<Rightarrow> Done w
      | d # ds \<Rightarrow> runDeferred beh d (w\<lparr>asyncQueue := ds\<rparr>))"


subsection \<open>Pre-link, post-link and destroy\<close>

text \<open>
  The value of \<open>ctrl.ngXxx\<close>, which is also the value of
  \<open>ctrl.ngXxx && ctrl.ngXxx.bind( ctrl )\<close>: the method, or \<open>undefined\<close>.
\<close>

definition ctrlMethod :: "DirectiveCtrl \<Rightarrow> hook \<Rightarrow> jsval" where
  "ctrlMethod c h = (if hasMethod c h then JsFunction (CtrlMethod h) else JsUndefined)"

definition assignRequiredCtrlInstancesToHostCtrl :: "string list \<Rightarrow> world \<Rightarrow> world" where
  "assignRequiredCtrlInstancesToHostCtrl requiredCtrlVarNames w =
     record_event (RequiredCtrlsAssigned requiredCtrlVarNames) w"

text \<open>The function \<open>_preLinkFnFactory\<close> returns.\<close>

definition runPreLink :: "behaviour \<Rightarrow> string list \<Rightarrow> DirectiveCtrl \<Rightarrow> world \<Rightarrow> outcome" where
  "runPreLink beh requiredCtrlVarNames c w =
     invoke beh (ctrlMethod c OnInit) (assignRequiredCtrlInstancesToHostCtrl requiredCtrlVarNames w)"

definition setHostStaticAttributes :: "StringMap \<Rightarrow> world \<Rightarrow> world" where
  "setHostStaticAttributes staticAttributes w = record_event (HostStaticAttributesSet staticAttributes) w"

text \<open>
  \<open>_setHostBindings\<close>: one \<open>scope.$watch\<close> for each entry of the three maps, the classes
  first; the result is the list of the deregistration functions.
\<close>

definition createWatcherByType :: "string \<Rightarrow> StringMap \<Rightarrow> fn list" where
  "createWatcherByType type hostBinding =
     map (\<lambda>(keyToSet, watchPropName). HostBindingWatcher type keyToSet watchPropName) hostBinding"

definition hostBindingWatchers :: "HostBindingsProcessed \<Rightarrow> fn list" where
  "hostBindingWatchers hb =
     createWatcherByType ''classes'' (classes hb) @
     createWatcherByType ''attributes'' (attributes hb) @
     createWatcherByType ''properties'' (properties hb)"

definition registerWatchers :: "fn list \<Rightarrow> world \<Rightarrow> world" where
  "registerWatchers fs w = fold (\<lambda>f. record_event (WatchRegistered f)) fs w"

definition setHostListeners :: "HostListenersProcessed \<Rightarrow> world \<Rightarrow> world" where
  "setHostListeners listeners w =
     fold (\<lambda>(eventName, cbArray). record_event (ListenerRegistered eventName cbArray)) listeners w"

text \<open>
  \<open>_createDirectiveBindings\<close>: a watcher for each input, the callback property for each
  output, an observer for each attribute binding.
\<close>

definition directiveWatchers :: "DirectiveMetadata \<Rightarrow> fn list" where
  "directiveWatchers md =
     map (\<lambda>(propName, alias). InputWatcher propName alias) (extractBindings (orEmpty (inputs md)) [])"

definition directiveObservers :: "DirectiveMetadata \<Rightarrow> fn list" where
  "directiveObservers md =
     map (\<lambda>(propName, alias). AttrObserver propName alias) (extractBindings (orEmpty (attrs md)) [])"

definition createDirectiveBindings :: "DirectiveMetadata \<Rightarrow> world \<Rightarrow> world" where
  "createDirectiveBindings md w =
     registerWatchers (directiveObservers md)
       (fold (\<lambda>(propName, alias). record_event (OutputBound propName alias))
          (extractBindings (orEmpty (outputs md)) [])
          (registerWatchers (directiveWatchers md) w))"

text \<open>\<open>_setupDestroyHandler\<close> registers the handler; \<open>runDestroyHandler\<close> is the handler.\<close>

definition setupDestroyHandler ::
  "DirectiveCtrl \<Rightarrow> bool \<Rightarrow> fn list \<Rightarrow> fn list \<Rightarrow> world \<Rightarrow> world" where
  "setupDestroyHandler c implementsIt watchers observers w =
     w\<lparr>destroyListeners := destroyListeners w @
          [\<lparr>destroyCtrl = c, implementsNgOnDestroy = implementsIt,
            watchersToDispose = watchers, observersToDispose = observers\<rparr>]\<rparr>"

definition runDestroyHandler :: "behaviour \<Rightarrow> destroyHandler \<Rightarrow> world \<Rightarrow> outcome" where
  "runDestroyHandler beh h w =
     andThen (if implementsNgOnDestroy h then invoke beh (ctrlMethod (destroyCtrl h) OnDestroy) w
              else Done w)
       (\<lambda>w1. andThen (forEach (invokeFn beh) (watchersToDispose h) w1)
          (\<lambda>w2. andThen (forEach (invokeFn beh) (observersToDispose h) w2)
             (\<lambda>w3. Done (record_event ElementOff w3))))"

text \<open>
  The host runtime delivers the \<open>$destroy\<close> event of the scope to the listeners that were
  registered with \<open>scope.$on\<close>, in the order of registration; an error a listener throws
  goes to the runtime's exception handler, and the next listener runs.
\<close>

definition destroyEvent :: "behaviour \<Rightarrow> world \<Rightarrow> world" where
  "destroyEvent beh w = fold (\<lambda>h w'. worldOf (runDestroyHandler beh h w')) (destroyListeners w) w"

text \<open>
  The completion callbacks the post-link functions hand to the notifier.  The first
  entry is the value of \<open>parentCheckedNotifiers.forEach( cb => cb() )\<close>: the notifiers are
  called while the list is built, and the entry is \<open>undefined\<close>.
\<close>

definition viewCallbacks :: "DirectiveCtrl \<Rightarrow> jsval list" where
  "viewCallbacks c = [JsUndefined, ctrlMethod c AfterViewInit, ctrlMethod c AfterViewChecked]"

definition contentCallbacks :: "DirectiveCtrl \<Rightarrow> jsval list" where
  "contentCallbacks c = [JsUndefined, ctrlMethod c AfterContentInit, ctrlMethod c AfterContentChecked]"

text \<open>\<open>ctrl.ngXxx && ctrl.ngXxx()\<close>.\<close>

definition callIfPresent :: "behaviour \<Rightarrow> DirectiveCtrl \<Rightarrow> hook \<Rightarrow> world \<Rightarrow> outcome" where
  "callIfPresent beh c h w = (if hasMethod c h then invoke beh (ctrlMethod c h) w else Done w)"

text \<open>The last part of the component's post-link function before the destroy handler.\<close>

definition componentHooks ::
  "behaviour \<Rightarrow> DirectiveCtrl \<Rightarrow> (string \<times> QueryMetadata) list \<Rightarrow> fn list \<Rightarrow> world \<Rightarrow> outcome" where
  "componentHooks beh c qs parentCheckedNotifiers w =
     (if length qs \<noteq> 0
      then andThen (forEach (invokeFn beh) parentCheckedNotifiers w)
             (\<lambda>w1. andThen (callNgOnChildrenChanged FromView (Some (viewCallbacks c)) None w1)
                (\<lambda>w2. andThen (forEach (invokeFn beh) parentCheckedNotifiers w2)
                   (callNgOnChildrenChanged FromContent (Some (contentCallbacks c)) None)))
      else andThen (forEach (invokeFn beh) parentCheckedNotifiers w)
             (\<lambda>w1. andThen (callIfPresent beh c AfterViewInit w1)
                (callIfPresent beh c AfterContentInit)))"

definition directiveHooks ::
  "behaviour \<Rightarrow> DirectiveCtrl \<Rightarrow> (string \<times> QueryMetadata) list \<Rightarrow> fn list \<Rightarrow> world \<Rightarrow> outcome" where
  "directiveHooks beh c qs parentCheckedNotifiers w =
     (if length qs \<noteq> 0
      then andThen (forEach (invokeFn beh) parentCheckedNotifiers w)
             (callNgOnChildrenChanged FromContent (Some (contentCallbacks c)) None)
      else andThen (forEach (invokeFn beh) parentCheckedNotifiers w)
             (callIfPresent beh c AfterContentInit))"

text \<open>
  Running a link function for the controller \<open>c\<close>; \<open>parentCheckedNotifiers\<close> is what
  \<open>_getParentCheckNotifiers( ctrl, requiredCtrls )\<close> returns.  \<open>hostProcessed\<close> is
  \<open>undefined\<close> when the descriptor has no host mapping, and reading its \<open>hostStatic\<close> throws.
  What a \<open>link\<close> that the type defines itself does is not part of the module; it is run
  as doing nothing.
\<close>

fun runLinkFn :: "behaviour \<Rightarrow> link_fn \<Rightarrow> DirectiveCtrl \<Rightarrow> fn list \<Rightarrow> world \<Rightarrow> outcome" where
  "runLinkFn beh noop c parentCheckedNotifiers w = Done w"
| "runLinkFn beh staticLink c parentCheckedNotifiers w = Done w"
| "runLinkFn beh (preLink requiredCtrlVarNames) c parentCheckedNotifiers w =
     runPreLink beh requiredCtrlVarNames c w"
| "runLinkFn beh (componentPostLink hooks requiredCtrlVarNames hostProcessed qs) c parentCheckedNotifiers w =
     (let w0 = (if \<not> ngOnInit hooks then assignRequiredCtrlInstancesToHostCtrl requiredCtrlVarNames w else w)
      in case hostProcessed of
           None \<Rightarrow> Threw TypeError w0
         | Some hp \<Rightarrow>
             let w1 = setHostStaticAttributes (hostStatic hp) w0;
                 w2 = registerWatchers (hostBindingWatchers (hostBindings hp)) w1;
                 w3 = setHostListeners (hostListeners hp) w2;
                 watchers = hostBindingWatchers (hostBindings hp) @ parentCheckedNotifiers;
                 w4 = setQuery qs w3
             in andThen (componentHooks beh c qs parentCheckedNotifiers w4)
                  (\<lambda>w5. Done (setupDestroyHandler c (ngOnDestroy hooks) watchers [] w5)))"
| "runLinkFn beh (directivePostLink hooks requiredCtrlVarNames hostProcessed md) c parentCheckedNotifiers w =
     (let w0 = (if \<not> ngOnInit hooks then assignRequiredCtrlInstancesToHostCtrl requiredCtrlVarNames w else w);
          w1 = createDirectiveBindings md w0
      in case hostProcessed of
           None \<Rightarrow> Threw TypeError w1
         | Some hp \<Rightarrow>
             let w2 = setHostStaticAttributes (hostStatic hp) w1;
                 w3 = registerWatchers (hostBindingWatchers (hostBindings hp)) w2;
                 w4 = setHostListeners (hostListeners hp) w3;
                 watchers = directiveWatchers md @ hostBindingWatchers (hostBindings hp) @ parentCheckedNotifiers;
                 w5 = setQuery (queries md) w4
             in andThen (directiveHooks beh c (queries md) parentCheckedNotifiers w5)
                  (\<lambda>w6. Done (setupDestroyHandler c (ngOnDestroy hooks) watchers (directiveObservers md) w6)))"

text \<open>
  A controller instance before it is linked: the notifier property is the \<open>noop\<close> that
  \<open>_createLink\<close> stored on the prototype when the descriptor declares queries, and
  absent otherwise; nothing is scheduled.
\<close>

definition newInstance :: "(string \<times> QueryMetadata) list \<Rightarrow> world" where
  "newInstance qs =
     \<lparr>ngOnChildrenChangedProp = (if length qs \<noteq> 0 then NoopNotifier else NoNotifier),
      readViewChildrenOrderScheduled = False,
      readContentChildrenOrderScheduled = False,
      asyncQueue = [],
      destroyListeners = [],
      trace = []\<rparr>"


section \<open>Notions the statements use\<close>

text \<open>
  The functions a trace records as called, in order, and the entries of a list of values
  that are functions, in order.
\<close>

fun callsOf :: "event list \<Rightarrow> fn list" where
  "callsOf [] = []"
| "callsOf (Called f # es) = f # callsOf es"
| "callsOf (e # es) = callsOf es"

fun functionsOf :: "jsval list \<Rightarrow> fn list" where
  "functionsOf [] = []"
| "functionsOf (JsFunction f # vs) = f # functionsOf vs"
| "functionsOf (v # vs) = functionsOf vs"

text \<open>
  What can happen to a linked controller instance as far as the scheduler is concerned:
  somebody calls \<open>ctrl._ngOnChildrenChanged\<close> with any arguments, or the host runtime
  runs the next deferred task.  An error leaves the state it was thrown in.
\<close>

datatype step =
    NotifierCalled ChildrenChangeHook "jsval list option" "ResolverMap option"
  | TaskRun

fun runStep :: "behaviour \<Rightarrow> step \<Rightarrow> world \<Rightarrow> world" where
  "runStep beh (NotifierCalled type cbs resolvers) w = worldOf (callNgOnChildrenChanged type cbs resolvers w)"
| "runStep beh TaskRun w = worldOf (runNextAsync beh w)"

definition runSteps :: "behaviour \<Rightarrow> step list \<Rightarrow> world \<Rightarrow> world" where
  "runSteps beh steps w = fold (runStep beh) steps w"

text \<open>The instance once \<open>_setQuery\<close> has run for its queries.\<close>

definition linked :: "(string \<times> QueryMetadata) list \<Rightarrow> world" where
  "linked qs = setQuery qs (newInstance qs)"

text \<open>The batches of a kind that wait in the queue.\<close>

definition pending :: "dom_type \<Rightarrow> world \<Rightarrow> deferred list" where
  "pending k w = filter (\<lambda>d. kind d = k) (asyncQueue w)"

text \<open>The semaphore of a kind is set exactly when one batch of the kind waits, and none waits otherwise.\<close>

definition coalesced :: "world \<Rightarrow> bool" where
  "coalesced w \<longleftrightarrow>
     length (pending DOM_view w) = (if semaphore DOM_view w then 1 else 0) \<and>
     length (pending DOM_content w) = (if semaphore DOM_content w then 1 else 0)"

text \<open>
  The functions a destroy handler is to call, in order: the destroy hook if it is
  declared, the disposal functions of the watchers, those of the observers.
\<close>

definition destroyCalls :: "destroyHandler \<Rightarrow> fn list" where
  "destroyCalls h =
     (if implementsNgOnDestroy h then [CtrlMethod OnDestroy] else [])
       @ watchersToDispose h @ observersToDispose h"

text \<open>
  The handler \<open>h\<close> is the one listener registered for the destroy event in the state \<open>w\<close>,
  and the event runs it: what the event calls is a beginning of the functions the handler
  is to call, and all of them, with the listeners of the element taken off last, when
  no function throws.
\<close>

definition disposesOnDestroy :: "behaviour \<Rightarrow> destroyHandler \<Rightarrow> world \<Rightarrow> bool" where
  "disposesOnDestroy beh h w \<longleftrightarrow>
     destroyListeners w = [h]
     \<and> destroyEvent beh w = worldOf (runDestroyHandler beh h w)
     \<and> (\<exists>evs. trace (destroyEvent beh w) = trace w @ evs
              \<and> prefix (callsOf evs) (destroyCalls h)
              \<and> (\<not> threw (runDestroyHandler beh h w)
                   \<longrightarrow> callsOf evs = destroyCalls h \<and> evs \<noteq> [] \<and> last evs = ElementOff))"

text \<open>The behaviour of functions whose bodies neither call the notifier nor throw.\<close>

definition silent :: behaviour where
  "silent f w = []"

text \<open>
  A declaration is the last one of its name in a sequence; a name is declared in a
  sequence.
\<close>

definition lastDeclaration :: "string list \<Rightarrow> string \<Rightarrow> bool" where
  "lastDeclaration bindings d = (find (\<lambda>b. bindingName b = bindingName d) (rev bindings) = Some d)"

definition declaredIn :: "string list option \<Rightarrow> string \<Rightarrow> bool" where
  "declaredIn bindings name = (name \<in> bindingName ` set (orEmpty bindings))"


section \<open>Example descriptors\<close>

text \<open>Small descriptors, types and instances at which the theorems below are instantiated.\<close>

definition noHooks :: ImplementedLifeCycleHooks where
  "noHooks = \<lparr>ngOnInit = False, ngAfterContentInit = False, ngAfterContentChecked = False,
              ngAfterViewInit = False, ngAfterViewChecked = False, ngOnDestroy = False\<rparr>"

definition exampleDirective :: DirectiveMetadata where
  "exampleDirective = \<lparr>selector = ''[my-dir]'', inputs = None, attrs = None, outputs = None,
                        host = Some [], queries = [], legacy = []\<rparr>"

definition exampleComponent :: ComponentMetadata where
  "exampleComponent = \<lparr>selector = ''my-cmp'', inputs = None, attrs = None, outputs = None,
                        host = Some [], queries = [], legacy = [],
                        template = Some ''hello'', templateUrl = None\<rparr>"

definition exampleType :: "metadata \<Rightarrow> ImplementedLifeCycleHooks \<Rightarrow> Type" where
  "exampleType md hooks = \<lparr>typeName = ''Example'', resolved = md, directiveName = ''example'',
                            requireMap = [], lfHooks = hooks,
                            hasStaticCompile = False, hasStaticLink = False\<rparr>"

text \<open>A component with the empty string as its template, and a template URL.\<close>

definition emptyTemplateComponent :: ComponentMetadata where
  "emptyTemplateComponent = exampleComponent\<lparr>template := Some [], templateUrl := Some ''a.html''\<rparr>"


definition exampleQueries :: "(string \<times> QueryMetadata) list" where
  "exampleQueries = [(''first'', ViewChildMetadata ''child''),
                     (''items'', ContentChildrenMetadata ''item''),
                     (''all'', ViewChildrenMetadata ''child'')]"

text \<open>
  A component that declares after-view-init together with after-view-checked, one that
  declares both templates, and one with a listener value that does not parse.
\<close>

definition bothViewHooks :: ImplementedLifeCycleHooks where
  "bothViewHooks = noHooks\<lparr>ngAfterViewInit := True, ngAfterViewChecked := True\<rparr>"

definition bothTemplatesComponent :: ComponentMetadata where
  "bothTemplatesComponent = exampleComponent\<lparr>templateUrl := Some ''a.html''\<rparr>"

definition badListenerComponent :: ComponentMetadata where
  "badListenerComponent = exampleComponent\<lparr>host := Some [(''(click)'', ''onClick'')]\<rparr>"

text \<open>A processed host with one class binding, and a directive with an input and an attribute.\<close>

definition exampleHost :: HostProcessed where
  "exampleHost = \<lparr>hostStatic = [],
                  hostBindings = \<lparr>classes = [(''active'', ''isActive'')], attributes = [], properties = []\<rparr>,
                  hostListeners = []\<rparr>"

definition bindingsDirective :: DirectiveMetadata where
  "bindingsDirective = exampleDirective\<lparr>inputs := Some [''value:model''], attrs := Some [''title:tip'']\<rparr>"


section \<open>Bindings\<close>

text \<open>
  An object is the list of its own properties in the order the language enumerates them.
  Setting a property keeps that order, and it creates no property \<open>__proto__\<close>.
\<close>

lemmas obj_defs = setProperty_def isArrayIndex_def isDigit_def indexValue_def

lemma isArrayIndex_examples:
  "isArrayIndex ''0'' \<and> isArrayIndex ''4294967294'' \<and> \<not> isArrayIndex ''4294967295''
   \<and> \<not> isArrayIndex ''01'' \<and> \<not> isArrayIndex ''a1''"
  by (simp add: obj_defs)

lemma keys_insertIndex: "fst ` set (insertIndex k v obj) = insert k (fst ` set obj)"
  by (induction obj) auto

lemma map_of_insertIndex:
  "k \<notin> fst ` set obj \<Longrightarrow> map_of (insertIndex k v obj) = (map_of obj)(k \<mapsto> v)"
  by (induction obj) (auto simp add: fun_upd_twist)

lemma distinct_insertIndex:
  "k \<notin> fst ` set obj \<Longrightarrow> distinct (map fst obj) \<Longrightarrow> distinct (map fst (insertIndex k v obj))"
proof (induction obj)
  case Nil
  then show ?case by simp
next
  case (Cons p ps)
  then show ?case
    using keys_insertIndex [of k v ps] by auto
qed

lemma map_of_snoc_new:
  "k \<notin> fst ` set obj \<Longrightarrow> map_of (obj @ [(k, v)]) = (map_of obj)(k \<mapsto> v)"
  by (induction obj) (auto simp add: fun_upd_twist)

lemma map_of_setProperty:
  "map_of (setProperty k v obj) = (if k = ''__proto__'' then map_of obj else (map_of obj)(k \<mapsto> v))"
  by (simp add: setProperty_def update_conv' map_of_insertIndex map_of_snoc_new del: map_of_append)

lemma keys_setProperty:
  "fst ` set (setProperty k v obj) = (if k = ''__proto__'' then fst ` set obj else insert k (fst ` set obj))"
  by (auto simp add: setProperty_def dom_update keys_insertIndex)

lemma distinct_setProperty:
  "distinct (map fst obj) \<Longrightarrow> distinct (map fst (setProperty k v obj))"
  by (simp add: setProperty_def distinct_update distinct_insertIndex)

lemma setProperty_Nil: "setProperty k v [] = (if k = ''__proto__'' then [] else [(k, v)])"
  by (simp add: setProperty_def)

lemma map_of_fold_setProperty_rev:
  "''__proto__'' \<notin> fst ` set src \<Longrightarrow>
   map_of (fold (\<lambda>(k, v). setProperty k v) src acc) = map_of acc ++ map_of (rev src)"
proof (induction src rule: rev_induct)
  case Nil
  then show ?case by simp
next
  case (snoc x xs)
  obtain a b where x: "x = (a, b)" by (cases x)
  from snoc.prems have "a \<noteq> ''__proto__''" "''__proto__'' \<notin> fst ` set xs"
    by (auto simp add: x)
  then show ?case
    using snoc.IH by (intro ext) (simp add: x map_of_setProperty map_add_def)
qed

lemma map_of_rev_distinct:
  "distinct (map fst xs) \<Longrightarrow> map_of (rev xs) = map_of xs"
  by (rule map_of_inject_set[THEN iffD2]) (simp_all add: distinct_rev rev_map[symmetric])

lemma map_of_assign3:
  assumes "distinct (map fst a)" "distinct (map fst b)" "distinct (map fst c)"
    and "''__proto__'' \<notin> fst ` set a" "''__proto__'' \<notin> fst ` set b" "''__proto__'' \<notin> fst ` set c"
  shows "map_of (assign [] [a, b, c]) = map_of a ++ map_of b ++ map_of c"
  using assms by (simp add: assign_def map_of_fold_setProperty_rev map_of_rev_distinct)

lemma distinct_fold_setProperty:
  "distinct (map fst acc) \<Longrightarrow> distinct (map fst (fold (\<lambda>b. setProperty (f b) (g b)) bs acc))"
  by (induction bs arbitrary: acc) (simp_all add: distinct_setProperty)

lemma proto_fold_setProperty:
  "''__proto__'' \<notin> fst ` set acc \<Longrightarrow>
   ''__proto__'' \<notin> fst ` set (fold (\<lambda>b. setProperty (f b) (g b)) bs acc)"
  by (induction bs arbitrary: acc) (simp_all add: keys_setProperty)

lemma distinct_extractBindings: "distinct (map fst (extractBindings bs t))"
  by (simp add: extractBindings_def distinct_fold_setProperty)

lemma proto_extractBindings: "''__proto__'' \<notin> fst ` set (extractBindings bs t)"
  by (simp add: extractBindings_def proto_fold_setProperty)

text \<open>The value a key ends up with is the one its last declaration gives it.\<close>

lemma map_of_fold_setProperty_last:
  "k \<noteq> ''__proto__'' \<Longrightarrow>
   map_of (fold (\<lambda>b. setProperty (f b) (g b)) bs acc) k =
     (case find (\<lambda>b. f b = k) (rev bs) of None \<Rightarrow> map_of acc k | Some d \<Rightarrow> Some (g d))"
  by (induction bs rule: rev_induct) (simp_all add: map_of_setProperty)

lemma map_of_extractBindings:
  "k \<noteq> ''__proto__'' \<Longrightarrow>
   map_of (extractBindings bs t) k =
     map_option (\<lambda>d. t @ bindingAlias d) (find (\<lambda>b. bindingName b = k) (rev bs))"
  by (simp add: extractBindings_def map_of_fold_setProperty_last split: option.splits)

lemma map_of_createComponentBindings:
  "map_of (createComponentBindings i a out) =
     map_of (extractBindings (orEmpty i) ''='') ++ map_of (extractBindings (orEmpty a) ''@'')
       ++ map_of (extractBindings (orEmpty out) ''&'')"
  by (simp add: createComponentBindings_def Let_def map_of_assign3 distinct_extractBindings
      proto_extractBindings)

lemma find_None_names: "k \<notin> bindingName ` set bs \<Longrightarrow> find (\<lambda>b. bindingName b = k) (rev bs) = None"
  by (auto simp add: find_None_iff)

text \<open>How a declaration is read: the name before the first colon, the alias after it.\<close>

lemma split_on_no_separator: "c \<notin> set xs \<Longrightarrow> split_on c xs = [xs]"
  by (induction xs) auto

lemma split_on_separator: "c \<notin> set xs \<Longrightarrow> split_on c (xs @ c # ys) = xs # split_on c ys"
  by (induction xs) auto

lemma declaration_syntax:
  assumes "SPLIT_BY \<notin> set name" and "SPLIT_BY \<notin> set alias"
  shows "bindingName (name @ SPLIT_BY # alias) = trim name"
    and "bindingAlias (name @ SPLIT_BY # alias) = trim alias"
    and "bindingName name = trim name"
    and "bindingAlias name = []"
  using assms
  by (simp_all add: bindingName_def bindingAlias_def bindingParts_def split_on_separator split_on_no_separator)

lemmas binding_defs = bindingName_def bindingAlias_def bindingParts_def SPLIT_BY_def trim_def
  isWhiteSpace_def orEmpty_def

text \<open>
  The mapping lists the names that are array indices first, in ascending order, and the
  other names in the order of their first declaration; it has no entry \<open>__proto__\<close>.
\<close>

lemma createComponentBindings_enumeration_order:
  "createComponentBindings (Some [''a:x'', ''10:u'', ''__proto__:z'', ''2'', ''a:y'', ''01'']) (Some [''1:q'']) None
     = [(''1'', ''@q''), (''2'', ''=''), (''10'', ''=u''), (''a'', ''=y''), (''01'', ''='')]"
  by (simp add: obj_defs createComponentBindings_def extractBindings_def assign_def binding_defs)

text \<open>
  C9, as stated, fails in two ways.  Where a name is declared twice in its own sequence:
  with the inputs \<open>a:x\<close> and \<open>a:y\<close> and nothing else, the declaration \<open>a:x\<close> is under
  inputs and its name occurs in no other sequence, but the result maps \<open>a\<close> to \<open>=y\<close>, not to
  \<open>=x\<close>.  And where the name is \<open>__proto__\<close>: with the single input \<open>__proto__:x\<close>, the
  assignment \<open>acc[name] = ...\<close> creates no entry, so the result maps \<open>__proto__\<close> to nothing.
\<close>

theorem redeclared_or_proto_binding:
  "lastDeclaration [''a:x'', ''a:y''] ''a:y'' \<and> \<not> lastDeclaration [''a:x'', ''a:y''] ''a:x''
   \<and> ''a:x'' \<in> set (orEmpty (Some [''a:x'', ''a:y'']))
   \<and> bindingName ''a:x'' = ''a'' \<and> bindingAlias ''a:x'' = ''x''
   \<and> \<not> declaredIn None ''a''
   \<and> map_of (createComponentBindings (Some [''a:x'', ''a:y'']) None None) ''a'' = Some ''=y''
   \<and> lastDeclaration [''__proto__:x''] ''__proto__:x''
   \<and> bindingName ''__proto__:x'' = ''__proto__''
   \<and> \<not> declaredIn None ''__proto__''
   \<and> map_of (createComponentBindings (Some [''__proto__:x'']) None None) ''__proto__'' = None"
  by (simp add: createComponentBindings_def extractBindings_def binding_defs assign_def declaredIn_def
      lastDeclaration_def obj_defs)

text \<open>
  C9, amended.  The binding synthesizer maps the three sequences into one mapping: for
  every declaration that is the last one of its name in its own sequence, whose name
  occurs in no other sequence and is not \<open>__proto__\<close>, the result maps the name to
  \<open>=alias\<close> when it is declared under inputs, to \<open>@alias\<close> under attrs and to \<open>&alias\<close>
  under outputs, the alias being empty when the declaration has none.  It is a function
  of the three sequences.
\<close>

theorem binding_of_declaration:
  "(lastDeclaration (orEmpty i) d \<and> \<not> declaredIn a (bindingName d) \<and> \<not> declaredIn out (bindingName d)
      \<and> bindingName d \<noteq> ''__proto__''
      \<longrightarrow> map_of (createComponentBindings i a out) (bindingName d) = Some (''='' @ bindingAlias d))
   \<and> (lastDeclaration (orEmpty a) d \<and> \<not> declaredIn i (bindingName d) \<and> \<not> declaredIn out (bindingName d)
      \<and> bindingName d \<noteq> ''__proto__''
      \<longrightarrow> map_of (createComponentBindings i a out) (bindingName d) = Some (''@'' @ bindingAlias d))
   \<and> (lastDeclaration (orEmpty out) d \<and> \<not> declaredIn i (bindingName d) \<and> \<not> declaredIn a (bindingName d)
      \<and> bindingName d \<noteq> ''__proto__''
      \<longrightarrow> map_of (createComponentBindings i a out) (bindingName d) = Some (''&'' @ bindingAlias d))"
  by (auto simp add: map_of_createComponentBindings map_add_def map_of_extractBindings
      lastDeclaration_def declaredIn_def find_None_names)

theorem binding_of_declaration_witness:
  "map_of (createComponentBindings (Some [''a:x'', ''b'']) (Some [''c: y '']) (Some [''d:z''])) ''b'' = Some ''=''
   \<and> map_of (createComponentBindings (Some [''a:x'', ''b'']) (Some [''c: y '']) (Some [''d:z''])) ''c'' = Some ''@y''
   \<and> map_of (createComponentBindings (Some [''a:x'', ''b'']) (Some [''c: y '']) (Some [''d:z''])) ''d'' = Some ''&z''"
proof -
  have n: "bindingName ''b'' = ''b''" "bindingAlias ''b'' = []"
          "bindingName ''c: y '' = ''c''" "bindingAlias ''c: y '' = ''y''"
          "bindingName ''d:z'' = ''d''" "bindingAlias ''d:z'' = ''z''"
          "bindingName ''a:x'' = ''a''"
    by (simp_all add: binding_defs)
  show ?thesis
    using binding_of_declaration [of "Some [''a:x'', ''b'']" "''b''" "Some [''c: y '']" "Some [''d:z'']"]
          binding_of_declaration [of "Some [''a:x'', ''b'']" "''c: y ''" "Some [''c: y '']" "Some [''d:z'']"]
          binding_of_declaration [of "Some [''a:x'', ''b'']" "''d:z''" "Some [''c: y '']" "Some [''d:z'']"]
    by (simp add: n lastDeclaration_def declaredIn_def orEmpty_def)
qed

section \<open>Host entries\<close>

lemmas host_defs = processHost_def processHostEntry_def isStaticHost_def isHostBinding_def
  isHostListener_def delimitedBy_def isLineTerminator_def stripBindingOrListenerBrackets_def
  classifyHostBinding_def regexWordDot_test_def regexWordDot_remove_def HAS_CLASS_REGEX_def
  HAS_ATTR_REGEX_def processHostListenerCallback_def execCallbackRegex_def isWordChar_def
  isArgChar_def trim_def isWhiteSpace_def obj_defs

text \<open>The two entries the spec gives, and one entry of each of the other kinds.\<close>

lemma processHost_spec_examples:
  "processHost (Some [(''[class.active]'', ''isActive''), (''(click)'', ''onClick($event,$event.target)'')]) =
     Inr (Some \<lparr>hostStatic = [],
                hostBindings = \<lparr>classes = [(''active'', ''isActive'')], attributes = [], properties = []\<rparr>,
                hostListeners = [(''click'', [''onClick'', ''$event'', ''$event.target''])]\<rparr>)"
  by (simp add: host_defs)

lemma processHost_kinds:
  "processHost (Some [(''role'', ''button''), (''[attr.title]'', ''tip''), (''[value]'', ''model'')]) =
     Inr (Some \<lparr>hostStatic = [(''role'', ''button'')],
                hostBindings = \<lparr>classes = [], attributes = [(''title'', ''tip'')],
                                 properties = [(''value'', ''model'')]\<rparr>,
                hostListeners = []\<rparr>)"
  by (simp add: host_defs)

text \<open>
  What host processing does with a single entry whose name is not \<open>__proto__\<close>: a key
  free of brackets and parentheses is a static attribute; \<open>[class.NAME]\<close> and
  \<open>[attr.NAME]\<close> give a classes and an attributes entry \<open>NAME\<close>; a bracketed key gives a
  properties entry under its own name when neither of the two prefix expressions matches
  that name.
\<close>

lemma processHost_class_binding:
  assumes "stripBindingOrListenerBrackets name = name" and "\<not> list_ex isLineTerminator name"
    and "name \<noteq> ''__proto__''"
  shows "processHost (Some [(''[class.'' @ name @ '']'', v)]) =
           Inr (Some \<lparr>hostStatic = [],
                      hostBindings = \<lparr>classes = [(name, v)], attributes = [], properties = []\<rparr>,
                      hostListeners = []\<rparr>)"
proof -
  have k: "stripBindingOrListenerBrackets (''[class.'' @ name @ '']'') = ''class.'' @ name"
    using assms(1) by (simp add: stripBindingOrListenerBrackets_def)
  have b: "isHostBinding (''[class.'' @ name @ '']'')"
    using assms(2) by (simp add: isHostBinding_def delimitedBy_def butlast_append isLineTerminator_def)
  show ?thesis
    using b k assms(3)
    by (simp add: processHost_def processHostEntry_def isStaticHost_def classifyHostBinding_def
        regexWordDot_test_def regexWordDot_remove_def HAS_CLASS_REGEX_def isLineTerminator_def
        setProperty_Nil)
qed

lemma processHost_attr_binding:
  assumes "stripBindingOrListenerBrackets name = name" and "\<not> list_ex isLineTerminator name"
    and "name \<noteq> ''__proto__''"
  shows "processHost (Some [(''[attr.'' @ name @ '']'', v)]) =
           Inr (Some \<lparr>hostStatic = [],
                      hostBindings = \<lparr>classes = [], attributes = [(name, v)], properties = []\<rparr>,
                      hostListeners = []\<rparr>)"
proof -
  have k: "stripBindingOrListenerBrackets (''[attr.'' @ name @ '']'') = ''attr.'' @ name"
    using assms(1) by (simp add: stripBindingOrListenerBrackets_def)
  have b: "isHostBinding (''[attr.'' @ name @ '']'')"
    using assms(2) by (simp add: isHostBinding_def delimitedBy_def butlast_append isLineTerminator_def)
  show ?thesis
    using b k assms(3)
    by (simp add: processHost_def processHostEntry_def isStaticHost_def classifyHostBinding_def
        regexWordDot_test_def regexWordDot_remove_def HAS_CLASS_REGEX_def HAS_ATTR_REGEX_def isLineTerminator_def
        setProperty_Nil)
qed

lemma processHost_property_binding:
  assumes "stripBindingOrListenerBrackets name = name" and "\<not> list_ex isLineTerminator name"
    and "\<not> regexWordDot_test HAS_CLASS_REGEX name" and "\<not> regexWordDot_test HAS_ATTR_REGEX name"
    and "name \<noteq> ''__proto__''"
  shows "processHost (Some [(CHR ''['' # name @ '']'', v)]) =
           Inr (Some \<lparr>hostStatic = [],
                      hostBindings = \<lparr>classes = [], attributes = [], properties = [(name, v)]\<rparr>,
                      hostListeners = []\<rparr>)"
proof -
  have k: "stripBindingOrListenerBrackets (CHR ''['' # name @ '']'') = name"
    using assms(1) by (simp add: stripBindingOrListenerBrackets_def)
  have b: "isHostBinding (CHR ''['' # name @ '']'')"
    using assms(2) by (simp add: isHostBinding_def delimitedBy_def butlast_append)
  show ?thesis
    using assms(3,4,5) b k
    by (simp add: processHost_def processHostEntry_def isStaticHost_def classifyHostBinding_def
        setProperty_Nil)
qed

lemma processHost_static:
  assumes "stripBindingOrListenerBrackets key = key" and "key \<noteq> ''__proto__''"
  shows "processHost (Some [(key, v)]) =
           Inr (Some \<lparr>hostStatic = [(key, v)],
                      hostBindings = \<lparr>classes = [], attributes = [], properties = []\<rparr>,
                      hostListeners = []\<rparr>)"
proof -
  have "\<forall>c\<in>set key. c \<noteq> CHR ''['' \<and> c \<noteq> CHR '']'' \<and> c \<noteq> CHR ''('' \<and> c \<noteq> CHR '')''"
    using assms by (simp add: stripBindingOrListenerBrackets_def filter_id_conv)
  then have s: "isStaticHost key"
    by (cases key) (auto simp add: isStaticHost_def isHostBinding_def isHostListener_def delimitedBy_def)
  show ?thesis
    using assms by (simp add: processHost_def processHostEntry_def s setProperty_Nil)
qed

text \<open>
  C7.  Host-spec processing is to classify a bracketed key that is neither
  \<open>[class.NAME]\<close> nor \<open>[attr.NAME]\<close> as a property keyed by the raw property name.  The
  expression \<open>/^class./\<close> does not escape its dot, so the key \<open>[className]\<close> counts as a class
  binding: for the host \<open>{ "[className]": "cls" }\<close> the code yields the classes entry
  \<open>ame\<close> and no properties entry \<open>className\<close>.
\<close>

theorem className_binding_lands_in_classes:
  "processHost (Some [(''[className]'', ''cls'')]) =
     Inr (Some \<lparr>hostStatic = [],
                hostBindings = \<lparr>classes = [(''ame'', ''cls'')], attributes = [], properties = []\<rparr>,
                hostListeners = []\<rparr>)"
  by (simp add: host_defs)


text \<open>
  Host processing accepts a listener value whatever its argument tokens are, as long as
  they are made of the characters the expression allows.
\<close>

lemma listener_value_accepted:
  assumes "m \<noteq> []" and "list_all isWordChar m" and "list_all isArgChar args"
  shows "processHostListenerCallback (ev, m @ CHR ''('' # args @ [CHR '')''])
           = Inr (ev, m # map trim (filter (\<lambda>argument. argument \<noteq> []) (split_on (CHR '','') args)))"
proof -
  have w: "\<not> isWordChar (CHR ''('')" by (simp add: isWordChar_def)
  have t: "takeWhile isWordChar (m @ CHR ''('' # args @ [CHR '')'']) = m"
    using assms(2) w by (simp add: takeWhile_append2 list_all_iff)
  have d: "dropWhile isWordChar (m @ CHR ''('' # args @ [CHR '')'']) = CHR ''('' # args @ [CHR '')'']"
    using assms(2) w by (simp add: dropWhile_append2 list_all_iff)
  show ?thesis
    using assms(1,3) by (simp add: processHostListenerCallback_def execCallbackRegex_def t d)
qed




text \<open>The only error host processing throws is the TypeError of a listener value that does not match.\<close>

lemma processHostEntry_error: "processHostEntry x acc = Inl e \<Longrightarrow> e = TypeError"
  by (auto simp add: processHostEntry_def processHostListenerCallback_def Let_def
      split: prod.splits if_splits sum.splits option.splits)

lemma foldE_processHostEntry_error: "foldE processHostEntry xs acc = Inl e \<Longrightarrow> e = TypeError"
  by (induction xs arbitrary: acc) (auto split: sum.splits dest: processHostEntry_error)

lemma processHost_error: "processHost h = Inl e \<Longrightarrow> e = TypeError"
  by (auto simp add: processHost_def split: option.splits sum.splits dest: foldE_processHostEntry_error)


section \<open>Compile-time validation\<close>

lemma createFromType_link_error:
  "createLink (typeName type) (resolved type) (lfHooks type) (requireMap type) = Inl e
     \<Longrightarrow> createFromType type = Inl e"
  by (simp add: createFromType_def Let_def)

text \<open>
  C3, as stated, fails for a component that declares the empty string as its template
  together with a template URL: the empty string is falsy, nothing is thrown, and the
  name and the directive definition object are returned, with the template URL alone.
\<close>

theorem empty_template_with_templateUrl_compiles:
  "createFromType (exampleType (IsComponent emptyTemplateComponent) noHooks) =
     Inr (''example'',
          [(''require'', Strings [''example'']),
           (''controller'', Controller ''Example''),
           (''link'', Link (LinkFn (componentPostLink noHooks []
               (Some \<lparr>hostStatic = [],
                      hostBindings = \<lparr>classes = [], attributes = [], properties = []\<rparr>,
                      hostListeners = []\<rparr>)
               []))),
           (''scope'', EmptyObject),
           (''bindToController'', Bindings []),
           (''controllerAs'', Str ''$ctrl''),
           (''transclude'', Boolean False),
           (''templateUrl'', Str ''a.html'')])"
  by (simp add: createFromType_def createLink_def createPostLink_def processHost_def
      componentSpecificDDO_def setIfTruthy_def truthyString_def exampleType_def exampleComponent_def
      emptyTemplateComponent_def noHooks_def DirectiveMetadata.truncate_def createDDO_def
      assign_def ddoShell_def createRequires_def createComponentBindings_def extractBindings_def
      orEmpty_def controllerAs_def transclude_def obj_defs)

text \<open>
  C3, amended.  For every component descriptor that declares both a non-empty template
  and a non-empty template URL, \<open>createFromType\<close> throws before any pair of name and
  factory is produced: the error of the link creation if that fails, and otherwise the
  error that both are declared.
\<close>

theorem both_templates_fail:
  assumes "resolved type = IsComponent c"
    and "truthyString (template c)" and "truthyString (templateUrl c)"
  shows "createFromType type =
           (case createLink (typeName type) (resolved type) (lfHooks type) (requireMap type) of
              Inl e \<Rightarrow> Inl e
            | Inr l \<Rightarrow> Inl CannotHaveBothTemplateAndTemplateUrl)"
  using assms
  by (simp add: createFromType_def Let_def componentSpecificDDO_def split: sum.splits)

theorem both_templates_fail_witness:
  "createFromType (exampleType (IsComponent (exampleComponent\<lparr>templateUrl := Some ''a.html''\<rparr>)) noHooks)
     = Inl CannotHaveBothTemplateAndTemplateUrl"
  using both_templates_fail
          [of "exampleType (IsComponent (exampleComponent\<lparr>templateUrl := Some ''a.html''\<rparr>)) noHooks"
              "exampleComponent\<lparr>templateUrl := Some ''a.html''\<rparr>"]
  by (simp add: exampleType_def exampleComponent_def noHooks_def truthyString_def
      createLink_def createPostLink_def processHost_def DirectiveMetadata.truncate_def)

text \<open>
  C4.  A descriptor, component or directive, whose hook flags declare the
  after-content-checked or the after-view-checked hook while it declares no query does
  not compile: creating the link throws the error that names the type, and so does
  \<open>createFromType\<close>; no link function exists that could be run for an instance.
\<close>

theorem checked_hooks_need_queries:
  assumes "ngAfterContentChecked (lfHooks type) \<or> ngAfterViewChecked (lfHooks type)"
    and "queries (asDirective (resolved type)) = []"
  shows "createLink (typeName type) (resolved type) (lfHooks type) (requireMap type)
           = Inl (CheckedHooksWithoutQueries (typeName type))
         \<and> createFromType type = Inl (CheckedHooksWithoutQueries (typeName type))"
proof -
  have l: "createLink (typeName type) (resolved type) (lfHooks type) (requireMap type)
             = Inl (CheckedHooksWithoutQueries (typeName type))"
    using assms by (simp add: createLink_def)
  then show ?thesis
    by (simp add: createFromType_def Let_def)
qed

theorem checked_hooks_need_queries_witness:
  "createFromType (exampleType (IsComponent exampleComponent) (noHooks\<lparr>ngAfterViewChecked := True\<rparr>))
     = Inl (CheckedHooksWithoutQueries ''Example'')"
  using checked_hooks_need_queries
          [of "exampleType (IsComponent exampleComponent) (noHooks\<lparr>ngAfterViewChecked := True\<rparr>)"]
  by (simp add: exampleType_def exampleComponent_def noHooks_def DirectiveMetadata.truncate_def)

lemma createLink_directive_view_hooks:
  assumes "md = IsDirective d" and "ngAfterViewInit hooks \<or> ngAfterViewChecked hooks"
  shows "createLink n md hooks rm
           \<in> {Inl (CheckedHooksWithoutQueries n), Inl TypeError, Inl (ViewHooksOnDirective n)}"
proof (cases "processHost (host d)")
  case (Inl e)
  then have "e = TypeError" by (rule processHost_error)
  with Inl assms show ?thesis by (simp add: createLink_def)
next
  case (Inr hp)
  with assms show ?thesis by (simp add: createLink_def createPostLink_def)
qed

text \<open>
  C5, as stated, fails for components that declare the after-view-init hook, no queries
  and no content hook: the one that also declares the after-view-checked hook throws the
  error of the checked hooks without queries; the one that declares both a template and
  a template URL throws the error that both are declared; the one whose host has the
  listener value \<open>onClick\<close>, which is no call, throws while its host is processed.
\<close>

theorem view_init_component_does_not_compile:
  "ngAfterViewInit bothViewHooks
   \<and> \<not> ngAfterContentInit bothViewHooks \<and> \<not> ngAfterContentChecked bothViewHooks
   \<and> queries exampleComponent = []
   \<and> createFromType (exampleType (IsComponent exampleComponent) bothViewHooks)
       = Inl (CheckedHooksWithoutQueries ''Example'')
   \<and> queries bothTemplatesComponent = []
   \<and> createFromType (exampleType (IsComponent bothTemplatesComponent) (noHooks\<lparr>ngAfterViewInit := True\<rparr>))
       = Inl CannotHaveBothTemplateAndTemplateUrl
   \<and> queries badListenerComponent = []
   \<and> createFromType (exampleType (IsComponent badListenerComponent) (noHooks\<lparr>ngAfterViewInit := True\<rparr>))
       = Inl TypeError"
  by (simp add: createFromType_def createLink_def createPostLink_def host_defs
      componentSpecificDDO_def setIfTruthy_def truthyString_def exampleType_def exampleComponent_def
      bothViewHooks_def bothTemplatesComponent_def badListenerComponent_def
      noHooks_def DirectiveMetadata.truncate_def)

text \<open>
  C5, amended.  A plain directive descriptor whose hook flags declare the after-view-init
  or the after-view-checked hook does not compile: \<open>createFromType\<close> throws, and the error
  is one of the three the link creation has for a directive.  A component descriptor
  that declares the after-view-init hook and not the after-view-checked hook, with no
  queries and no content hooks, whose host entries are well formed and which does not
  declare both a non-empty template and a non-empty template URL, compiles: the name and
  a directive definition object are returned.
\<close>

theorem view_hooks_directive_fails_component_compiles:
  "(resolved type = IsDirective d \<and> (ngAfterViewInit (lfHooks type) \<or> ngAfterViewChecked (lfHooks type))
      \<longrightarrow> createFromType type \<in> {Inl (CheckedHooksWithoutQueries (typeName type)), Inl TypeError,
                                   Inl (ViewHooksOnDirective (typeName type))})
   \<and> (resolved type = IsComponent c \<and> ngAfterViewInit (lfHooks type)
        \<and> \<not> ngAfterViewChecked (lfHooks type)
        \<and> \<not> ngAfterContentInit (lfHooks type) \<and> \<not> ngAfterContentChecked (lfHooks type)
        \<and> queries c = []
        \<and> processHost (host c) = Inr hp
        \<and> \<not> (truthyString (template c) \<and> truthyString (templateUrl c))
      \<longrightarrow> (\<exists>obj. createFromType type = Inr (directiveName type, obj)))"
proof (intro conjI impI)
  assume a: "resolved type = IsDirective d \<and> (ngAfterViewInit (lfHooks type) \<or> ngAfterViewChecked (lfHooks type))"
  then have "createLink (typeName type) (resolved type) (lfHooks type) (requireMap type)
               \<in> {Inl (CheckedHooksWithoutQueries (typeName type)), Inl TypeError,
                   Inl (ViewHooksOnDirective (typeName type))}"
    using createLink_directive_view_hooks by blast
  then show "createFromType type \<in> {Inl (CheckedHooksWithoutQueries (typeName type)), Inl TypeError,
                                     Inl (ViewHooksOnDirective (typeName type))}"
    using createFromType_link_error [of type] by auto
next
  assume a: "resolved type = IsComponent c \<and> ngAfterViewInit (lfHooks type)
        \<and> \<not> ngAfterViewChecked (lfHooks type)
        \<and> \<not> ngAfterContentInit (lfHooks type) \<and> \<not> ngAfterContentChecked (lfHooks type)
        \<and> queries c = []
        \<and> processHost (host c) = Inr hp
        \<and> \<not> (truthyString (template c) \<and> truthyString (templateUrl c))"
  then have "\<exists>l. createLink (typeName type) (resolved type) (lfHooks type) (requireMap type) = Inr l"
    by (simp add: createLink_def createPostLink_def Let_def DirectiveMetadata.truncate_def)
  then obtain l where l: "createLink (typeName type) (resolved type) (lfHooks type) (requireMap type) = Inr l" ..
  from a have "\<exists>s. componentSpecificDDO c l = Inr s"
    by (auto simp add: componentSpecificDDO_def)
  with a l show "\<exists>obj. createFromType type = Inr (directiveName type, obj)"
    by (auto simp add: createFromType_def Let_def)
qed

theorem view_hooks_directive_fails_component_compiles_witness:
  "createFromType (exampleType (IsDirective exampleDirective) (noHooks\<lparr>ngAfterViewInit := True\<rparr>))
     = Inl (ViewHooksOnDirective ''Example'')
   \<and> (\<exists>obj. createFromType (exampleType (IsComponent exampleComponent) (noHooks\<lparr>ngAfterViewInit := True\<rparr>))
              = Inr (''example'', obj))"
proof -
  have d: "createFromType (exampleType (IsDirective exampleDirective) (noHooks\<lparr>ngAfterViewInit := True\<rparr>))
             \<notin> {Inl (CheckedHooksWithoutQueries ''Example''), Inl TypeError}"
    by (simp add: createFromType_def createLink_def createPostLink_def processHost_def
        exampleType_def exampleDirective_def noHooks_def)
  show ?thesis
    using d
      view_hooks_directive_fails_component_compiles
          [of "exampleType (IsDirective exampleDirective) (noHooks\<lparr>ngAfterViewInit := True\<rparr>)"
              exampleDirective exampleComponent None]
      view_hooks_directive_fails_component_compiles
          [of "exampleType (IsComponent exampleComponent) (noHooks\<lparr>ngAfterViewInit := True\<rparr>)"
              exampleDirective exampleComponent
              "Some \<lparr>hostStatic = [], hostBindings = \<lparr>classes = [], attributes = [], properties = []\<rparr>,
                     hostListeners = []\<rparr>"]
    by (simp add: exampleType_def exampleComponent_def exampleDirective_def noHooks_def
        truthyString_def processHost_def)
qed


section \<open>Traces\<close>

lemma callsOf_append [simp]: "callsOf (xs @ ys) = callsOf xs @ callsOf ys"
  by (induction xs rule: callsOf.induct) simp_all

lemma trace_record_event [simp]: "trace (record_event e w) = trace w @ [e]"
  by (simp add: record_event_def)

lemma trace_setSemaphore [simp]: "trace (setSemaphore k b w) = trace w @ [SemaphoreWritten k b]"
  by (cases k) simp_all

lemma trace_evalAsync [simp]: "trace (evalAsync d w) = trace w"
  by (simp add: evalAsync_def)

text \<open>The notifier calls no function: it only writes the semaphore and schedules.\<close>

lemma ngOnChildrenChanged_trace:
  "\<exists>evs. trace (worldOf (ngOnChildrenChanged r t c rs w)) = trace w @ evs \<and> callsOf evs = []"
  by (simp add: ngOnChildrenChanged_def split: option.splits)

lemma runStmt_trace:
  "\<exists>evs. trace (worldOf (runStmt s w)) = trace w @ evs \<and> callsOf evs = []"
  by (cases s) (simp_all add: callNgOnChildrenChanged_def ngOnChildrenChanged_trace split: notifier.splits)

lemma forEach_runStmt_trace:
  "\<exists>evs. trace (worldOf (forEach runStmt ss w)) = trace w @ evs \<and> callsOf evs = []"
proof (induction ss arbitrary: w)
  case Nil
  then show ?case by simp
next
  case (Cons s ss)
  obtain e1 where e1: "trace (worldOf (runStmt s w)) = trace w @ e1" "callsOf e1 = []"
    using runStmt_trace by blast
  show ?case
  proof (cases "runStmt s w")
    case (Done w1)
    obtain e2 where e2: "trace (worldOf (forEach runStmt ss w1)) = trace w1 @ e2" "callsOf e2 = []"
      using Cons.IH by blast
    from Done e1 e2 show ?thesis by simp
  next
    case (Threw e w1)
    with e1 show ?thesis by simp
  qed
qed

lemma invokeFn_trace:
  "\<exists>evs. trace (worldOf (invokeFn beh f w)) = trace w @ Called f # evs \<and> callsOf evs = []"
proof -
  obtain evs where
    "trace (worldOf (forEach runStmt (beh f (record_event (Called f) w)) (record_event (Called f) w)))
       = trace (record_event (Called f) w) @ evs" "callsOf evs = []"
    using forEach_runStmt_trace by blast
  then show ?thesis by (simp add: invokeFn_def)
qed

text \<open>
  A loop that calls the functions of a list calls them in the order of the list, each
  once, up to the first that throws.
\<close>

lemma forEach_invokeFn_trace:
  "\<exists>evs. trace (worldOf (forEach (invokeFn beh) fs w)) = trace w @ evs
         \<and> prefix (callsOf evs) fs
         \<and> (\<not> threw (forEach (invokeFn beh) fs w) \<longrightarrow> callsOf evs = fs)"
proof (induction fs arbitrary: w)
  case Nil
  then show ?case by simp
next
  case (Cons f fs)
  obtain e1 where e1: "trace (worldOf (invokeFn beh f w)) = trace w @ Called f # e1" "callsOf e1 = []"
    using invokeFn_trace by blast
  show ?case
  proof (cases "invokeFn beh f w")
    case (Done w1)
    obtain e2 where e2: "trace (worldOf (forEach (invokeFn beh) fs w1)) = trace w1 @ e2"
        "prefix (callsOf e2) fs" "\<not> threw (forEach (invokeFn beh) fs w1) \<longrightarrow> callsOf e2 = fs"
      using Cons.IH by blast
    from Done e1 e2
    have "trace (worldOf (forEach (invokeFn beh) (f # fs) w)) = trace w @ (Called f # e1 @ e2)"
      by simp
    moreover from Done e1 e2 have "prefix (callsOf (Called f # e1 @ e2)) (f # fs)" by simp
    moreover from Done e1 e2
    have "\<not> threw (forEach (invokeFn beh) (f # fs) w) \<longrightarrow> callsOf (Called f # e1 @ e2) = f # fs"
      by simp
    ultimately show ?thesis by blast
  next
    case (Threw e w1)
    with e1 have "trace (worldOf (forEach (invokeFn beh) (f # fs) w)) = trace w @ (Called f # e1)"
      by simp
    moreover from e1 have "prefix (callsOf (Called f # e1)) (f # fs)" by simp
    moreover from Threw have "threw (forEach (invokeFn beh) (f # fs) w)" by simp
    ultimately show ?thesis by blast
  qed
qed

lemma andThen_assoc: "andThen (andThen out f) g = andThen out (\<lambda>w. andThen (f w) g)"
  by (cases out) simp_all

lemma forEach_append: "forEach f (xs @ ys) w = andThen (forEach f xs w) (forEach f ys)"
proof (induction xs arbitrary: w)
  case Nil
  then show ?case by simp
next
  case (Cons x xs)
  then show ?case by (cases "f x w") simp_all
qed


section \<open>The deferred batch\<close>

text \<open>The guarded loop over the completion callbacks calls the entries that are functions.\<close>

lemma runCompletionCallbacks_eq:
  "runCompletionCallbacks beh cbs w = forEach (invokeFn beh) (functionsOf cbs) w"
  unfolding runCompletionCallbacks_def
proof (induction cbs arbitrary: w)
  case Nil
  then show ?case by simp
next
  case (Cons v vs)
  show ?case
  proof (cases v)
    case JsUndefined
    then show ?thesis using Cons.IH by simp
  next
    case (JsFunction f)
    then show ?thesis using Cons.IH by (cases "invokeFn beh f w") simp_all
  next
    case (JsOther x)
    then show ?thesis using Cons.IH by simp
  qed
qed

lemma runDeferred_trace:
  "\<exists>evs. trace (worldOf (runDeferred beh d w)) = trace w @ SemaphoreWritten (kind d) False # evs
         \<and> prefix (callsOf evs) (resolversOf (domResolverCb d) (kind d) @ functionsOf (onFirstChangeDoneCb d))
         \<and> (\<not> threw (runDeferred beh d w)
              \<longrightarrow> callsOf evs = resolversOf (domResolverCb d) (kind d) @ functionsOf (onFirstChangeDoneCb d))"
proof -
  let ?rs = "resolversOf (domResolverCb d) (kind d)"
  let ?fs = "functionsOf (onFirstChangeDoneCb d)"
  let ?w0 = "setSemaphore (kind d) False w"
  let ?o1 = "forEach (invokeFn beh) ?rs ?w0"
  obtain e1 where e1: "trace (worldOf ?o1) = trace ?w0 @ e1" "prefix (callsOf e1) ?rs"
      "\<not> threw ?o1 \<longrightarrow> callsOf e1 = ?rs"
    using forEach_invokeFn_trace by blast
  show ?thesis
  proof (cases ?o1)
    case (Done w1)
    let ?o2 = "forEach (invokeFn beh) ?fs w1"
    obtain e2 where e2: "trace (worldOf ?o2) = trace w1 @ e2" "prefix (callsOf e2) ?fs"
        "\<not> threw ?o2 \<longrightarrow> callsOf e2 = ?fs"
      using forEach_invokeFn_trace by blast
    have r: "runDeferred beh d w = ?o2"
      by (simp add: runDeferred_def runResolvers_def Done runCompletionCallbacks_eq)
    from Done e1 have c1: "callsOf e1 = ?rs" by simp
    from Done e1 e2
    have "trace (worldOf (runDeferred beh d w)) = trace w @ SemaphoreWritten (kind d) False # (e1 @ e2)"
      by (simp add: r)
    moreover from c1 e2 have "prefix (callsOf (e1 @ e2)) (?rs @ ?fs)" by simp
    moreover from c1 e2 have "\<not> threw (runDeferred beh d w) \<longrightarrow> callsOf (e1 @ e2) = ?rs @ ?fs"
      by (simp add: r)
    ultimately show ?thesis by blast
  next
    case (Threw e w1)
    have r: "runDeferred beh d w = Threw e w1"
      by (simp add: runDeferred_def runResolvers_def Threw)
    from Threw e1
    have "trace (worldOf (runDeferred beh d w)) = trace w @ SemaphoreWritten (kind d) False # e1"
      by (simp add: r)
    moreover from e1 have "prefix (callsOf e1) (?rs @ ?fs)"
      using prefix_prefix by blast
    moreover have "threw (runDeferred beh d w)" by (simp add: r)
    ultimately show ?thesis by blast
  qed
qed

text \<open>The resolvers of a kind stand in the order of the queries they were registered for.\<close>

lemma resolvers_fold:
  "resolversOf (fold addResolver qs m) k
     = resolversOf m k @ resolversOf (fold addResolver qs \<lparr>view = [], content = []\<rparr>) k"
proof (induction qs arbitrary: m)
  case Nil
  then show ?case by (cases k) simp_all
next
  case (Cons q qs)
  obtain key meta where q: "q = (key, meta)" by (cases q)
  have step: "resolversOf (addResolver q m) k
               = resolversOf m k @ resolversOf (addResolver q \<lparr>view = [], content = []\<rparr>) k"
    by (cases meta; cases k) (simp_all add: q)
  show ?case
    using Cons.IH [of "addResolver q m"] Cons.IH [of "addResolver q \<lparr>view = [], content = []\<rparr>"]
    by (simp add: step)
qed

lemma resolvers_in_query_order:
  "resolversOf (getOnChildrenResolvers (qs @ qs')) k
     = resolversOf (getOnChildrenResolvers qs) k @ resolversOf (getOnChildrenResolvers qs') k"
  unfolding getOnChildrenResolvers_def
  using resolvers_fold [of qs' "fold addResolver qs \<lparr>view = [], content = []\<rparr>" k]
  by simp


section \<open>The semaphores\<close>

lemma semaphore_setSemaphore [simp]:
  "semaphore k (setSemaphore k' b w) = (if k = k' then b else semaphore k w)"
  by (cases k; cases k') (simp_all add: record_event_def)

lemma asyncQueue_setSemaphore [simp]: "asyncQueue (setSemaphore k b w) = asyncQueue w"
  by (cases k) (simp_all add: record_event_def)

lemma prop_setSemaphore [simp]: "ngOnChildrenChangedProp (setSemaphore k b w) = ngOnChildrenChangedProp w"
  by (cases k) (simp_all add: record_event_def)

lemma semaphore_evalAsync [simp]: "semaphore k (evalAsync d w) = semaphore k w"
  by (cases k) (simp_all add: evalAsync_def)

lemma asyncQueue_evalAsync [simp]: "asyncQueue (evalAsync d w) = asyncQueue w @ [d]"
  by (simp add: evalAsync_def)

lemma semaphore_queue_update [simp]: "semaphore k (w\<lparr>asyncQueue := q\<rparr>) = semaphore k w"
  by (cases k) simp_all

lemma pending_simps [simp]:
  "pending k (setSemaphore k' b w) = pending k w"
  "pending k (evalAsync d w) = pending k w @ (if kind d = k then [d] else [])"
  "pending k (w\<lparr>asyncQueue := q\<rparr>) = filter (\<lambda>d. kind d = k) q"
  by (simp_all add: pending_def)

lemma coalesced_iff:
  "coalesced w \<longleftrightarrow> (\<forall>k. length (pending k w) = (if semaphore k w then 1 else 0))"
proof
  assume c: "coalesced w"
  show "\<forall>k. length (pending k w) = (if semaphore k w then 1 else 0)"
  proof
    fix k
    show "length (pending k w) = (if semaphore k w then 1 else 0)"
      using c by (cases k) (simp_all add: coalesced_def)
  qed
next
  assume "\<forall>k. length (pending k w) = (if semaphore k w then 1 else 0)"
  then show "coalesced w"
    unfolding coalesced_def by blast
qed

lemma pending_count: "coalesced w \<Longrightarrow> length (pending k w) = (if semaphore k w then 1 else 0)"
  by (simp add: coalesced_iff)

lemma pending_le_1: "coalesced w \<Longrightarrow> length (pending k w) \<le> 1"
  using pending_count [of w k] by simp

lemma pending_empty: "coalesced w \<Longrightarrow> \<not> semaphore k w \<Longrightarrow> pending k w = []"
  using pending_count [of w k] by simp

text \<open>Every operation keeps the semaphores and the queue in step.\<close>

lemma coalesced_ngOnChildrenChanged:
  assumes "coalesced w"
  shows "coalesced (worldOf (ngOnChildrenChanged r t c rs w))"
  unfolding coalesced_iff
proof
  fix k
  from assms have "length (pending k w) = (if semaphore k w then 1 else 0)"
    by (rule pending_count)
  then show "length (pending k (worldOf (ngOnChildrenChanged r t c rs w)))
               = (if semaphore k (worldOf (ngOnChildrenChanged r t c rs w)) then 1 else 0)"
    by (auto simp add: ngOnChildrenChanged_def split: option.splits if_splits
             simp del: semaphore.simps setSemaphore.simps)
qed

lemma coalesced_call:
  "coalesced w \<Longrightarrow> coalesced (worldOf (callNgOnChildrenChanged t c rs w))"
  by (simp add: callNgOnChildrenChanged_def coalesced_ngOnChildrenChanged split: notifier.splits)

lemma coalesced_runStmt: "coalesced w \<Longrightarrow> coalesced (worldOf (runStmt s w))"
  by (cases s) (simp_all add: coalesced_call)

lemma coalesced_forEach:
  assumes "\<And>x w. coalesced w \<Longrightarrow> coalesced (worldOf (f x w))"
  shows "coalesced w \<Longrightarrow> coalesced (worldOf (forEach f xs w))"
proof (induction xs arbitrary: w)
  case Nil
  then show ?case by simp
next
  case (Cons x xs)
  have "coalesced (worldOf (f x w))" using Cons.prems assms by blast
  then show ?case using Cons.IH by (cases "f x w") simp_all
qed

lemma coalesced_record_event [simp]: "coalesced (record_event e w) = coalesced w"
  by (simp add: coalesced_def record_event_def pending_def)

lemma coalesced_invokeFn: "coalesced w \<Longrightarrow> coalesced (worldOf (invokeFn beh f w))"
  unfolding invokeFn_def by (rule coalesced_forEach) (simp_all add: coalesced_runStmt)

lemma coalesced_andThen:
  assumes "coalesced (worldOf out)" and "\<And>w. coalesced w \<Longrightarrow> coalesced (worldOf (g w))"
  shows "coalesced (worldOf (andThen out g))"
  using assms by (cases out) simp_all

lemma coalesced_runDeferred:
  assumes "coalesced (setSemaphore (kind d) False w)"
  shows "coalesced (worldOf (runDeferred beh d w))"
  unfolding runDeferred_def runResolvers_def runCompletionCallbacks_eq
  by (intro coalesced_andThen coalesced_forEach coalesced_invokeFn assms)

lemma coalesced_runNextAsync:
  assumes "coalesced w"
  shows "coalesced (worldOf (runNextAsync beh w))"
proof (cases "asyncQueue w")
  case Nil
  then show ?thesis using assms by (simp add: runNextAsync_def)
next
  case (Cons d ds)
  have "coalesced (setSemaphore (kind d) False (w\<lparr>asyncQueue := ds\<rparr>))"
    unfolding coalesced_iff
  proof
    fix k
    from assms have "length (pending k w) = (if semaphore k w then 1 else 0)"
      by (rule pending_count)
    then show "length (pending k (setSemaphore (kind d) False (w\<lparr>asyncQueue := ds\<rparr>)))
                 = (if semaphore k (setSemaphore (kind d) False (w\<lparr>asyncQueue := ds\<rparr>)) then 1 else 0)"
      using Cons
      by (auto simp add: pending_def simp del: semaphore.simps setSemaphore.simps split: if_splits)
  qed
  then show ?thesis
    by (simp add: runNextAsync_def Cons coalesced_runDeferred)
qed

lemma coalesced_runStep: "coalesced w \<Longrightarrow> coalesced (runStep beh s w)"
  by (cases s) (simp_all add: coalesced_call coalesced_runNextAsync)

lemma coalesced_runSteps: "coalesced w \<Longrightarrow> coalesced (runSteps beh steps w)"
  unfolding runSteps_def by (induction steps arbitrary: w) (simp_all add: coalesced_runStep)

lemma coalesced_linked: "coalesced (linked qs)"
  by (simp add: linked_def setQuery_def newInstance_def coalesced_def pending_def record_event_def)

text \<open>Once \<open>_setQuery\<close> has installed the notifier, it stays.\<close>

lemma prop_ngOnChildrenChanged [simp]:
  "ngOnChildrenChangedProp (worldOf (ngOnChildrenChanged r t c rs w)) = ngOnChildrenChangedProp w"
  by (simp add: ngOnChildrenChanged_def evalAsync_def split: option.splits)

lemma prop_call [simp]:
  "ngOnChildrenChangedProp (worldOf (callNgOnChildrenChanged t c rs w)) = ngOnChildrenChangedProp w"
  by (simp add: callNgOnChildrenChanged_def split: notifier.splits)

lemma prop_forEach:
  assumes "\<And>x w. ngOnChildrenChangedProp (worldOf (f x w)) = ngOnChildrenChangedProp w"
  shows "ngOnChildrenChangedProp (worldOf (forEach f xs w)) = ngOnChildrenChangedProp w"
proof (induction xs arbitrary: w)
  case Nil
  then show ?case by simp
next
  case (Cons x xs)
  then show ?case using assms[of x w] by (cases "f x w") simp_all
qed

lemma prop_runStmt [simp]: "ngOnChildrenChangedProp (worldOf (runStmt s w)) = ngOnChildrenChangedProp w"
  by (cases s) simp_all

lemma prop_invokeFn [simp]: "ngOnChildrenChangedProp (worldOf (invokeFn beh f w)) = ngOnChildrenChangedProp w"
  by (simp add: invokeFn_def prop_forEach record_event_def)

lemma prop_runDeferred [simp]:
  "ngOnChildrenChangedProp (worldOf (runDeferred beh d w)) = ngOnChildrenChangedProp w"
proof -
  let ?o1 = "forEach (invokeFn beh) (resolversOf (domResolverCb d) (kind d)) (setSemaphore (kind d) False w)"
  have 1: "ngOnChildrenChangedProp (worldOf ?o1) = ngOnChildrenChangedProp w"
    by (simp add: prop_forEach)
  show ?thesis
    unfolding runDeferred_def runResolvers_def runCompletionCallbacks_eq
    using 1 by (cases ?o1) (simp_all add: prop_forEach)
qed

lemma prop_runStep [simp]: "ngOnChildrenChangedProp (runStep beh s w) = ngOnChildrenChangedProp w"
  by (cases s) (simp_all add: runNextAsync_def split: list.splits)

lemma prop_runSteps [simp]: "ngOnChildrenChangedProp (runSteps beh steps w) = ngOnChildrenChangedProp w"
  unfolding runSteps_def by (induction steps arbitrary: w) simp_all

lemma prop_linked: "qs \<noteq> [] \<Longrightarrow> ngOnChildrenChangedProp (linked qs) = Notifier (getOnChildrenResolvers qs)"
  by (simp add: linked_def setQuery_def)

lemma prop_reachable:
  "qs \<noteq> [] \<Longrightarrow>
   ngOnChildrenChangedProp (runSteps beh steps (linked qs)) = Notifier (getOnChildrenResolvers qs)"
  by (simp add: prop_linked)

lemma semaphore_after_call:
  assumes "ngOnChildrenChangedProp w = Notifier r" and "hookDomType t = Some k"
  shows "semaphore k (worldOf (callNgOnChildrenChanged t c rs w))"
  using assms by (simp add: callNgOnChildrenChanged_def ngOnChildrenChanged_def
      del: semaphore.simps setSemaphore.simps)

lemma call_when_set:
  assumes "ngOnChildrenChangedProp w = Notifier r" and "hookDomType t = Some k" and "semaphore k w"
  shows "callNgOnChildrenChanged t c rs w = Done w"
  using assms by (simp add: callNgOnChildrenChanged_def ngOnChildrenChanged_def)

lemma call_when_clear:
  assumes "ngOnChildrenChangedProp w = Notifier r" and "hookDomType t = Some k" and "\<not> semaphore k w"
  shows "callNgOnChildrenChanged t c rs w =
           Done (evalAsync \<lparr>kind = k, onFirstChangeDoneCb = orEmpty c,
                            domResolverCb = (case rs of None \<Rightarrow> r | Some r' \<Rightarrow> r')\<rparr>
                   (setSemaphore k True w))"
  using assms by (simp add: callNgOnChildrenChanged_def ngOnChildrenChanged_def)

lemmas run_defs = linked_def setQuery_def newInstance_def getOnChildrenResolvers_def
  exampleQueries_def runSteps_def record_event_def evalAsync_def runDeferred_def runResolvers_def
  runCompletionCallbacks_def invokeFn_def silent_def viewCallbacks_def contentCallbacks_def
  ctrlMethod_def callNgOnChildrenChanged_def ngOnChildrenChanged_def orEmpty_def pending_def
  noHooks_def


section \<open>Scheduling\<close>

text \<open>
  With queries declared and nothing scheduled yet, the component's post-link function
  schedules the batch of the view with the view hooks and then the batch of the content
  with the content hooks.
\<close>

lemma componentHooks_schedules:
  assumes "qs \<noteq> []" and "ngOnChildrenChangedProp w = Notifier r"
    and "\<not> semaphore DOM_view w" and "\<not> semaphore DOM_content w"
  shows "componentHooks beh c qs [] w =
           Done (evalAsync \<lparr>kind = DOM_content, onFirstChangeDoneCb = contentCallbacks c, domResolverCb = r\<rparr>
                   (setSemaphore DOM_content True
                      (evalAsync \<lparr>kind = DOM_view, onFirstChangeDoneCb = viewCallbacks c, domResolverCb = r\<rparr>
                         (setSemaphore DOM_view True w))))"
  using assms
  by (simp add: componentHooks_def callNgOnChildrenChanged_def ngOnChildrenChanged_def orEmpty_def
      evalAsync_def record_event_def)



text \<open>
  C2.  For a controller instance with at least one declared query, in any state it can
  reach after \<open>_setQuery\<close> by calls of the notifier and runs of deferred tasks: of two
  calls of the notifier for the same kind in immediate succession, the second returns
  at once and changes nothing; at most one batch of any kind is pending; and when no
  batch of the kind was pending before the first call, then after it exactly one is,
  the one with the callbacks of the first call, whose run is one pass over the resolvers
  followed by one call of each completion callback that is a function.
\<close>

theorem notifier_coalesces:
  assumes "qs \<noteq> []" and "hookDomType type = Some k"
  shows "callNgOnChildrenChanged type cbs2 rs2
           (worldOf (callNgOnChildrenChanged type cbs1 rs1 (runSteps beh steps (linked qs))))
           = Done (worldOf (callNgOnChildrenChanged type cbs1 rs1 (runSteps beh steps (linked qs))))
         \<and> length (pending j (runSteps beh steps (linked qs))) \<le> 1
         \<and> (\<not> semaphore k (runSteps beh steps (linked qs)) \<longrightarrow>
              pending k (worldOf (callNgOnChildrenChanged type cbs1 rs1 (runSteps beh steps (linked qs))))
                = [\<lparr>kind = k, onFirstChangeDoneCb = orEmpty cbs1,
                    domResolverCb = (case rs1 of None \<Rightarrow> getOnChildrenResolvers qs | Some r \<Rightarrow> r)\<rparr>])
         \<and> (\<exists>evs. trace (worldOf (runDeferred beh
                       \<lparr>kind = k, onFirstChangeDoneCb = orEmpty cbs1,
                        domResolverCb = (case rs1 of None \<Rightarrow> getOnChildrenResolvers qs | Some r \<Rightarrow> r)\<rparr> w))
                     = trace w @ SemaphoreWritten k False # evs
                \<and> (\<not> threw (runDeferred beh
                       \<lparr>kind = k, onFirstChangeDoneCb = orEmpty cbs1,
                        domResolverCb = (case rs1 of None \<Rightarrow> getOnChildrenResolvers qs | Some r \<Rightarrow> r)\<rparr> w)
                     \<longrightarrow> callsOf evs
                          = resolversOf (case rs1 of None \<Rightarrow> getOnChildrenResolvers qs | Some r \<Rightarrow> r) k
                              @ functionsOf (orEmpty cbs1)))"
proof -
  let ?w0 = "runSteps beh steps (linked qs)"
  let ?w1 = "worldOf (callNgOnChildrenChanged type cbs1 rs1 ?w0)"
  let ?b = "\<lparr>kind = k, onFirstChangeDoneCb = orEmpty cbs1,
             domResolverCb = (case rs1 of None \<Rightarrow> getOnChildrenResolvers qs | Some r \<Rightarrow> r)\<rparr>"
  have p0: "ngOnChildrenChangedProp ?w0 = Notifier (getOnChildrenResolvers qs)"
    using assms(1) by (rule prop_reachable)
  then have p1: "ngOnChildrenChangedProp ?w1 = Notifier (getOnChildrenResolvers qs)"
    by simp
  have s1: "semaphore k ?w1"
    using p0 assms(2) by (rule semaphore_after_call)
  have c0: "coalesced ?w0"
    by (simp add: coalesced_runSteps coalesced_linked)
  have "callNgOnChildrenChanged type cbs2 rs2 ?w1 = Done ?w1"
    using p1 assms(2) s1 by (rule call_when_set)
  moreover have "length (pending j ?w0) \<le> 1"
    using c0 by (rule pending_le_1)
  moreover have "\<not> semaphore k ?w0 \<longrightarrow> pending k ?w1 = [?b]"
  proof
    assume n: "\<not> semaphore k ?w0"
    have "pending k ?w0 = []" using c0 n by (rule pending_empty)
    then show "pending k ?w1 = [?b]"
      by (simp add: call_when_clear [OF p0 assms(2) n])
  qed
  moreover have "\<exists>evs. trace (worldOf (runDeferred beh ?b w)) = trace w @ SemaphoreWritten k False # evs
                \<and> (\<not> threw (runDeferred beh ?b w)
                     \<longrightarrow> callsOf evs
                          = resolversOf (case rs1 of None \<Rightarrow> getOnChildrenResolvers qs | Some r \<Rightarrow> r) k
                              @ functionsOf (orEmpty cbs1))"
    using runDeferred_trace [of beh ?b w] by auto
  ultimately show ?thesis by blast
qed

theorem notifier_coalesces_witness:
  "callNgOnChildrenChanged FromContent (Some [JsFunction (OtherFunction 2)]) None
     (worldOf (callNgOnChildrenChanged FromContent (Some [JsFunction (OtherFunction 1)]) None (linked exampleQueries)))
     = Done (worldOf (callNgOnChildrenChanged FromContent (Some [JsFunction (OtherFunction 1)]) None (linked exampleQueries)))
   \<and> length (pending DOM_content (linked exampleQueries)) \<le> 1
   \<and> pending DOM_content
        (worldOf (callNgOnChildrenChanged FromContent (Some [JsFunction (OtherFunction 1)]) None (linked exampleQueries)))
       = [\<lparr>kind = DOM_content, onFirstChangeDoneCb = [JsFunction (OtherFunction 1)],
           domResolverCb = getOnChildrenResolvers exampleQueries\<rparr>]
   \<and> (\<exists>evs. trace (worldOf (runDeferred silent
                 \<lparr>kind = DOM_content, onFirstChangeDoneCb = [JsFunction (OtherFunction 1)],
                  domResolverCb = getOnChildrenResolvers exampleQueries\<rparr> (linked exampleQueries)))
               = trace (linked exampleQueries) @ SemaphoreWritten DOM_content False # evs
           \<and> callsOf evs = [ResolveChildren ''items'' ''item'' DOM_content False, OtherFunction 1])"
proof -
  have q: "exampleQueries \<noteq> []" by (simp add: exampleQueries_def)
  have k: "hookDomType FromContent = Some DOM_content" by simp
  have s: "\<not> semaphore DOM_content (runSteps silent [] (linked exampleQueries))"
    by (simp add: run_defs)
  have r: "resolversOf (getOnChildrenResolvers exampleQueries) DOM_content
             = [ResolveChildren ''items'' ''item'' DOM_content False]"
    by (simp add: run_defs)
  have n: "\<not> threw (runDeferred silent
                 \<lparr>kind = DOM_content, onFirstChangeDoneCb = [JsFunction (OtherFunction 1)],
                  domResolverCb = getOnChildrenResolvers exampleQueries\<rparr> (linked exampleQueries))"
    by (simp add: run_defs)
  show ?thesis
    using notifier_coalesces [OF q k, of "Some [JsFunction (OtherFunction 2)]" None
                                "Some [JsFunction (OtherFunction 1)]" None silent "[]" DOM_content
                                "linked exampleQueries"] s n r
    by (auto simp add: runSteps_def orEmpty_def)
qed

lemma functionsOf_none: "\<not> list_ex isFunction cbs \<Longrightarrow> functionsOf cbs = []"
  by (induction cbs rule: functionsOf.induct) simp_all

lemma forEach_silent: "forEach (invokeFn silent) fs w = Done (fold (\<lambda>f. record_event (Called f)) fs w)"
  by (induction fs arbitrary: w) (simp_all add: invokeFn_def silent_def)

text \<open>
  C10.  The loop over the completion callbacks of a deferred batch calls the entries
  that are functions, in order, and nothing else: an entry that is not a function is
  passed over, without a call and without an error, and a list with no function in it
  leaves the state as it is.  The lists the post-link functions supply hold a function
  exactly for the hooks the controller has, so the loop calls the hooks the controller
  has, whether none, some or all; with hook bodies that do not throw, the loop does not
  throw whatever the entries are.
\<close>

theorem non_functions_are_skipped:
  "runCompletionCallbacks beh cbs w = forEach (invokeFn beh) (functionsOf cbs) w
   \<and> (\<not> list_ex isFunction cbs \<longrightarrow> runCompletionCallbacks beh cbs w = Done w)
   \<and> functionsOf (viewCallbacks c) = map CtrlMethod (filter (hasMethod c) [AfterViewInit, AfterViewChecked])
   \<and> functionsOf (contentCallbacks c) = map CtrlMethod (filter (hasMethod c) [AfterContentInit, AfterContentChecked])
   \<and> \<not> threw (runCompletionCallbacks silent cbs w)"
  by (simp add: runCompletionCallbacks_eq functionsOf_none viewCallbacks_def contentCallbacks_def
      ctrlMethod_def forEach_silent)

theorem non_functions_are_skipped_witness:
  "runCompletionCallbacks silent [JsUndefined, JsOther (RawString ''x''), JsUndefined] (linked exampleQueries)
     = Done (linked exampleQueries)
   \<and> functionsOf (viewCallbacks noHooks) = []
   \<and> functionsOf (contentCallbacks (noHooks\<lparr>ngAfterContentChecked := True\<rparr>)) = [CtrlMethod AfterContentChecked]"
  using non_functions_are_skipped [of silent "[JsUndefined, JsOther (RawString ''x''), JsUndefined]"
          "linked exampleQueries" noHooks]
        non_functions_are_skipped [of silent "[]" "linked exampleQueries" "noHooks\<lparr>ngAfterContentChecked := True\<rparr>"]
  by (simp add: noHooks_def)


section \<open>Destroy\<close>

lemma invoke_ctrlMethod:
  "invoke beh (ctrlMethod c h) w = (if hasMethod c h then invokeFn beh (CtrlMethod h) w else Threw TypeError w)"
  by (simp add: ctrlMethod_def)

lemma andThen_Done_self [simp]: "andThen out Done = out"
  by (cases out) simp_all

lemma runDestroyHandler_eq:
  "runDestroyHandler beh h w =
     (if implementsNgOnDestroy h \<and> \<not> hasMethod (destroyCtrl h) OnDestroy then Threw TypeError w
      else andThen (forEach (invokeFn beh) (destroyCalls h) w)
             (\<lambda>w3. Done (record_event ElementOff w3)))"
  by (simp add: runDestroyHandler_def destroyCalls_def invoke_ctrlMethod forEach_append andThen_assoc)

text \<open>
  What the handler calls: the destroy hook if it is declared, then the disposal functions,
  each once and in order, up to the first that throws.
\<close>

lemma runDestroyHandler_trace:
  "\<exists>evs. trace (worldOf (runDestroyHandler beh h w)) = trace w @ evs
     \<and> prefix (callsOf evs) (destroyCalls h)
     \<and> (\<not> threw (runDestroyHandler beh h w) \<longrightarrow>
           callsOf evs = destroyCalls h \<and> evs \<noteq> [] \<and> last evs = ElementOff)"
proof (cases "implementsNgOnDestroy h \<and> \<not> hasMethod (destroyCtrl h) OnDestroy")
  case True
  then have "runDestroyHandler beh h w = Threw TypeError w"
    by (simp add: runDestroyHandler_eq)
  then show ?thesis by simp
next
  case False
  let ?o = "forEach (invokeFn beh) (destroyCalls h) w"
  have r: "runDestroyHandler beh h w = andThen ?o (\<lambda>w3. Done (record_event ElementOff w3))"
    using False by (auto simp add: runDestroyHandler_eq)
  obtain e1 where e1: "trace (worldOf ?o) = trace w @ e1" "prefix (callsOf e1) (destroyCalls h)"
      "\<not> threw ?o \<longrightarrow> callsOf e1 = destroyCalls h"
    using forEach_invokeFn_trace by blast
  show ?thesis
  proof (cases ?o)
    case (Done w1)
    with e1 have "trace (worldOf (runDestroyHandler beh h w)) = trace w @ (e1 @ [ElementOff])"
      by (simp add: r)
    moreover from Done e1 have "callsOf (e1 @ [ElementOff]) = destroyCalls h" by simp
    ultimately show ?thesis
      by (intro exI [of _ "e1 @ [ElementOff]"]) simp
  next
    case (Threw e w1)
    with e1 have "trace (worldOf (runDestroyHandler beh h w)) = trace w @ e1"
      by (simp add: r)
    moreover from Threw have "threw (runDestroyHandler beh h w)" by (simp add: r)
    ultimately show ?thesis using e1(2) by blast
  qed
qed

text \<open>The one registered handler is what the destroy event runs.\<close>

lemma disposesOnDestroy_single:
  "destroyListeners w = [h] \<Longrightarrow> disposesOnDestroy beh h w"
  using runDestroyHandler_trace [of beh h w]
  by (simp add: disposesOnDestroy_def destroyEvent_def)

text \<open>Nothing but \<open>_setupDestroyHandler\<close> touches the listeners of the destroy event.\<close>

lemma listeners_record_event [simp]: "destroyListeners (record_event e w) = destroyListeners w"
  by (simp add: record_event_def)

lemma listeners_setSemaphore [simp]: "destroyListeners (setSemaphore k b w) = destroyListeners w"
  by (cases k) simp_all

lemma listeners_evalAsync [simp]: "destroyListeners (evalAsync d w) = destroyListeners w"
  by (simp add: evalAsync_def)

lemma listeners_call [simp]:
  "destroyListeners (worldOf (callNgOnChildrenChanged t cbs rs w)) = destroyListeners w"
  by (simp add: callNgOnChildrenChanged_def ngOnChildrenChanged_def split: notifier.splits option.splits)

lemma listeners_runStmt [simp]: "destroyListeners (worldOf (runStmt s w)) = destroyListeners w"
  by (cases s) simp_all

lemma listeners_andThen:
  "destroyListeners (worldOf out) = L \<Longrightarrow>
   (\<And>w. destroyListeners w = L \<Longrightarrow> destroyListeners (worldOf (g w)) = L) \<Longrightarrow>
   destroyListeners (worldOf (andThen out g)) = L"
  by (cases out) simp_all

lemma listeners_forEach:
  "(\<And>x w. destroyListeners (worldOf (f x w)) = destroyListeners w) \<Longrightarrow>
   destroyListeners (worldOf (forEach f xs w)) = destroyListeners w"
proof (induction xs arbitrary: w)
  case Nil
  then show ?case by simp
next
  case (Cons x xs)
  have "destroyListeners (worldOf (f x w)) = destroyListeners w"
    by (rule Cons.prems)
  then show ?case
    using Cons by (cases "f x w") simp_all
qed

lemma listeners_invokeFn [simp]: "destroyListeners (worldOf (invokeFn beh f w)) = destroyListeners w"
  by (simp add: invokeFn_def listeners_forEach)

lemma listeners_forEach_invokeFn [simp]:
  "destroyListeners (worldOf (forEach (invokeFn beh) fs w)) = destroyListeners w"
  by (simp add: listeners_forEach)

lemma listeners_callIfPresent [simp]:
  "destroyListeners (worldOf (callIfPresent beh c h w)) = destroyListeners w"
  by (simp add: callIfPresent_def invoke_ctrlMethod)

lemma listeners_componentHooks:
  "destroyListeners (worldOf (componentHooks beh c qs pcn w)) = destroyListeners w"
  by (simp add: componentHooks_def listeners_andThen)

lemma listeners_directiveHooks:
  "destroyListeners (worldOf (directiveHooks beh c qs pcn w)) = destroyListeners w"
  by (simp add: directiveHooks_def listeners_andThen)

lemma listeners_fold_record_event [simp]:
  "destroyListeners (fold (\<lambda>x. record_event (f x)) xs w) = destroyListeners w"
  by (induction xs arbitrary: w) simp_all

lemma listeners_registerWatchers [simp]: "destroyListeners (registerWatchers fs w) = destroyListeners w"
  by (simp add: registerWatchers_def)

lemma listeners_setHostListeners [simp]: "destroyListeners (setHostListeners ls w) = destroyListeners w"
  by (simp add: setHostListeners_def case_prod_unfold)

lemma listeners_createDirectiveBindings [simp]:
  "destroyListeners (createDirectiveBindings md w) = destroyListeners w"
  by (simp add: createDirectiveBindings_def case_prod_unfold)

lemma listeners_setQuery [simp]: "destroyListeners (setQuery qs w) = destroyListeners w"
  by (simp add: setQuery_def)

lemma listeners_assignRequired [simp]:
  "destroyListeners (assignRequiredCtrlInstancesToHostCtrl ns w) = destroyListeners w"
  by (simp add: assignRequiredCtrlInstancesToHostCtrl_def)

lemma listeners_setHostStaticAttributes [simp]:
  "destroyListeners (setHostStaticAttributes s w) = destroyListeners w"
  by (simp add: setHostStaticAttributes_def)

lemma andThen_Done:
  "andThen out g = Done w \<Longrightarrow> \<exists>w'. out = Done w' \<and> g w' = Done w"
  by (cases out) simp_all

text \<open>
  A post-link function that returns has added one handler to the listeners, the one
  with the controller, the flag of the destroy hook and the disposal functions it has
  collected.
\<close>

lemma componentPostLink_listeners:
  assumes "runLinkFn beh (componentPostLink hooks names (Some hp) qs) c pcn w0 = Done w"
  shows "destroyListeners w = destroyListeners w0 @
           [\<lparr>destroyCtrl = c, implementsNgOnDestroy = ngOnDestroy hooks,
             watchersToDispose = hostBindingWatchers (hostBindings hp) @ pcn,
             observersToDispose = []\<rparr>]"
proof -
  let ?w4 = "setQuery qs (setHostListeners (hostListeners hp)
               (registerWatchers (hostBindingWatchers (hostBindings hp))
                  (setHostStaticAttributes (hostStatic hp)
                     (if \<not> ngOnInit hooks then assignRequiredCtrlInstancesToHostCtrl names w0 else w0))))"
  from assms obtain w5 where w5: "componentHooks beh c qs pcn ?w4 = Done w5"
      and w: "w = setupDestroyHandler c (ngOnDestroy hooks) (hostBindingWatchers (hostBindings hp) @ pcn) [] w5"
    by (auto simp add: Let_def dest!: andThen_Done)
  have "destroyListeners w5 = destroyListeners ?w4"
    using listeners_componentHooks [of beh c qs pcn ?w4] by (simp add: w5)
  then show ?thesis
    by (simp add: w setupDestroyHandler_def)
qed

lemma directivePostLink_listeners:
  assumes "runLinkFn beh (directivePostLink hooks names (Some hp) md) c pcn w0 = Done w"
  shows "destroyListeners w = destroyListeners w0 @
           [\<lparr>destroyCtrl = c, implementsNgOnDestroy = ngOnDestroy hooks,
             watchersToDispose = directiveWatchers md @ hostBindingWatchers (hostBindings hp) @ pcn,
             observersToDispose = directiveObservers md\<rparr>]"
proof -
  let ?w5 = "setQuery (queries md) (setHostListeners (hostListeners hp)
               (registerWatchers (hostBindingWatchers (hostBindings hp))
                  (setHostStaticAttributes (hostStatic hp)
                     (createDirectiveBindings md
                        (if \<not> ngOnInit hooks then assignRequiredCtrlInstancesToHostCtrl names w0 else w0)))))"
  from assms obtain w6 where w6: "directiveHooks beh c (queries md) pcn ?w5 = Done w6"
      and w: "w = setupDestroyHandler c (ngOnDestroy hooks)
                    (directiveWatchers md @ hostBindingWatchers (hostBindings hp) @ pcn)
                    (directiveObservers md) w6"
    by (auto simp add: Let_def dest!: andThen_Done)
  have "destroyListeners w6 = destroyListeners ?w5"
    using listeners_directiveHooks [of beh c "queries md" pcn ?w5] by (simp add: w6)
  then show ?thesis
    by (simp add: w setupDestroyHandler_def)
qed

text \<open>Functions that neither call the notifier nor throw: the handler returns.\<close>

lemma runDestroyHandler_silent:
  "implementsNgOnDestroy h \<longrightarrow> hasMethod (destroyCtrl h) OnDestroy \<Longrightarrow>
   \<not> threw (runDestroyHandler silent h w)"
  by (simp add: runDestroyHandler_eq forEach_silent)

lemma disposesOnDestroy_calls:
  "disposesOnDestroy beh h w \<Longrightarrow> \<not> threw (runDestroyHandler beh h w) \<Longrightarrow>
   \<exists>evs. trace (destroyEvent beh w) = trace w @ evs \<and> callsOf evs = destroyCalls h \<and> last evs = ElementOff"
  by (auto simp add: disposesOnDestroy_def)

lemma Done_worldOf: "\<not> threw out \<Longrightarrow> out = Done (worldOf out)"
  by (cases out) simp_all

lemmas link_defs = componentHooks_def directiveHooks_def callIfPresent_def
  assignRequiredCtrlInstancesToHostCtrl_def setHostStaticAttributes_def registerWatchers_def
  setHostListeners_def hostBindingWatchers_def createWatcherByType_def createDirectiveBindings_def
  directiveWatchers_def directiveObservers_def extractBindings_def binding_defs obj_defs
  exampleHost_def bindingsDirective_def exampleDirective_def

text \<open>
  C8.  \<open>_setupDestroyHandler\<close> registers one handler for the destroy event, and the
  post-link function of a component or of a directive, when it returns, has registered
  that handler with the controller, the flag of the destroy hook and the disposal
  functions it collected while linking: the watchers of the inputs and of the host
  bindings and the notifiers of the parents, and for a directive the observers of the
  attributes.  When the destroy event is delivered, the handler runs, and the functions
  it calls are: the destroy hook, if the hook flags declare one, and then the disposal
  functions of the watchers and of the observers, each entry once, in order, whatever
  their number; the listeners of the element are taken off last.  With no destroy hook
  declared the sequence is the disposal functions alone.  If a function throws, the
  handler ends there, so what was called is a beginning of that sequence: no disposal
  function is called before the hook has returned.
\<close>

theorem destroy_order:
  "(destroyListeners w = []
      \<longrightarrow> disposesOnDestroy beh
            \<lparr>destroyCtrl = c, implementsNgOnDestroy = implementsIt,
              watchersToDispose = watchers, observersToDispose = observers\<rparr>
            (setupDestroyHandler c implementsIt watchers observers w))
   \<and> (destroyListeners w = []
        \<and> runLinkFn beh (componentPostLink hooks names (Some hp) qs) c pcn w = Done w'
      \<longrightarrow> disposesOnDestroy beh
            \<lparr>destroyCtrl = c, implementsNgOnDestroy = ngOnDestroy hooks,
              watchersToDispose = hostBindingWatchers (hostBindings hp) @ pcn,
              observersToDispose = []\<rparr> w')
   \<and> (destroyListeners w = []
        \<and> runLinkFn beh (directivePostLink hooks names (Some hp) md) c pcn w = Done w'
      \<longrightarrow> disposesOnDestroy beh
            \<lparr>destroyCtrl = c, implementsNgOnDestroy = ngOnDestroy hooks,
              watchersToDispose = directiveWatchers md @ hostBindingWatchers (hostBindings hp) @ pcn,
              observersToDispose = directiveObservers md\<rparr> w')"
proof (intro conjI impI)
  assume "destroyListeners w = []"
  then show "disposesOnDestroy beh
            \<lparr>destroyCtrl = c, implementsNgOnDestroy = implementsIt,
              watchersToDispose = watchers, observersToDispose = observers\<rparr>
            (setupDestroyHandler c implementsIt watchers observers w)"
    by (intro disposesOnDestroy_single) (simp add: setupDestroyHandler_def)
next
  assume "destroyListeners w = []
        \<and> runLinkFn beh (componentPostLink hooks names (Some hp) qs) c pcn w = Done w'"
  then show "disposesOnDestroy beh
            \<lparr>destroyCtrl = c, implementsNgOnDestroy = ngOnDestroy hooks,
              watchersToDispose = hostBindingWatchers (hostBindings hp) @ pcn,
              observersToDispose = []\<rparr> w'"
    using componentPostLink_listeners [of beh hooks names hp qs c pcn w w']
    by (intro disposesOnDestroy_single) simp
next
  assume "destroyListeners w = []
        \<and> runLinkFn beh (directivePostLink hooks names (Some hp) md) c pcn w = Done w'"
  then show "disposesOnDestroy beh
            \<lparr>destroyCtrl = c, implementsNgOnDestroy = ngOnDestroy hooks,
              watchersToDispose = directiveWatchers md @ hostBindingWatchers (hostBindings hp) @ pcn,
              observersToDispose = directiveObservers md\<rparr> w'"
    using directivePostLink_listeners [of beh hooks names hp md c pcn w w']
    by (intro disposesOnDestroy_single) simp
qed

theorem destroy_order_witness:
  "(\<exists>evs. trace (destroyEvent silent
               (setupDestroyHandler (noHooks\<lparr>ngOnDestroy := True\<rparr>) True
                  [OtherFunction 0] [OtherFunction 1] (newInstance [])))
            = trace (setupDestroyHandler (noHooks\<lparr>ngOnDestroy := True\<rparr>) True
                       [OtherFunction 0] [OtherFunction 1] (newInstance [])) @ evs
         \<and> callsOf evs = [CtrlMethod OnDestroy, OtherFunction 0, OtherFunction 1]
         \<and> last evs = ElementOff)
   \<and> (\<exists>evs. trace (destroyEvent silent
               (worldOf (runLinkFn silent
                  (componentPostLink (noHooks\<lparr>ngOnDestroy := True\<rparr>) [] (Some exampleHost) exampleQueries)
                  (noHooks\<lparr>ngOnDestroy := True\<rparr>) [ParentCheckNotifier 0] (newInstance exampleQueries))))
            = trace (worldOf (runLinkFn silent
                  (componentPostLink (noHooks\<lparr>ngOnDestroy := True\<rparr>) [] (Some exampleHost) exampleQueries)
                  (noHooks\<lparr>ngOnDestroy := True\<rparr>) [ParentCheckNotifier 0] (newInstance exampleQueries))) @ evs
         \<and> callsOf evs = [CtrlMethod OnDestroy, HostBindingWatcher ''classes'' ''active'' ''isActive'',
                           ParentCheckNotifier 0]
         \<and> last evs = ElementOff)
   \<and> (\<exists>evs. trace (destroyEvent silent
               (worldOf (runLinkFn silent
                  (directivePostLink noHooks [] (Some exampleHost) bindingsDirective)
                  noHooks [ParentCheckNotifier 0] (newInstance []))))
            = trace (worldOf (runLinkFn silent
                  (directivePostLink noHooks [] (Some exampleHost) bindingsDirective)
                  noHooks [ParentCheckNotifier 0] (newInstance []))) @ evs
         \<and> callsOf evs = [InputWatcher ''value'' ''model'',
                           HostBindingWatcher ''classes'' ''active'' ''isActive'',
                           ParentCheckNotifier 0, AttrObserver ''title'' ''tip'']
         \<and> last evs = ElementOff)"
proof -
  let ?c = "noHooks\<lparr>ngOnDestroy := True\<rparr>"
  let ?lc = "runLinkFn silent (componentPostLink ?c [] (Some exampleHost) exampleQueries)
               ?c [ParentCheckNotifier 0] (newInstance exampleQueries)"
  let ?ld = "runLinkFn silent (directivePostLink noHooks [] (Some exampleHost) bindingsDirective)
               noHooks [ParentCheckNotifier 0] (newInstance [])"
  have e: "destroyListeners (newInstance []) = []" "destroyListeners (newInstance exampleQueries) = []"
    by (simp_all add: newInstance_def)
  have "\<not> threw ?lc"
    by (simp add: run_defs link_defs)
  then have lc: "?lc = Done (worldOf ?lc)" by (rule Done_worldOf)
  have "\<not> threw ?ld"
    by (simp add: run_defs link_defs)
  then have ld: "?ld = Done (worldOf ?ld)" by (rule Done_worldOf)
  have w: "hostBindingWatchers (hostBindings exampleHost) = [HostBindingWatcher ''classes'' ''active'' ''isActive'']"
      "directiveWatchers bindingsDirective = [InputWatcher ''value'' ''model'']"
      "directiveObservers bindingsDirective = [AttrObserver ''title'' ''tip'']"
    by (simp_all add: link_defs orEmpty_def)
  have f: "ngOnDestroy ?c" "\<not> ngOnDestroy noHooks" "hasMethod ?c OnDestroy"
    by (simp_all add: noHooks_def)
  have a: "disposesOnDestroy silent
             \<lparr>destroyCtrl = ?c, implementsNgOnDestroy = True,
               watchersToDispose = [OtherFunction 0], observersToDispose = [OtherFunction 1]\<rparr>
             (setupDestroyHandler ?c True [OtherFunction 0] [OtherFunction 1] (newInstance []))"
    by (rule destroy_order [THEN conjunct1, rule_format, OF e(1)])
  have b: "disposesOnDestroy silent
             \<lparr>destroyCtrl = ?c, implementsNgOnDestroy = ngOnDestroy ?c,
               watchersToDispose = hostBindingWatchers (hostBindings exampleHost) @ [ParentCheckNotifier 0],
               observersToDispose = []\<rparr>
             (worldOf ?lc)"
    by (rule destroy_order [THEN conjunct2, THEN conjunct1, rule_format, OF conjI, OF e(2) lc])
  have c: "disposesOnDestroy silent
             \<lparr>destroyCtrl = noHooks, implementsNgOnDestroy = ngOnDestroy noHooks,
               watchersToDispose = directiveWatchers bindingsDirective
                 @ hostBindingWatchers (hostBindings exampleHost) @ [ParentCheckNotifier 0],
               observersToDispose = directiveObservers bindingsDirective\<rparr>
             (worldOf ?ld)"
    by (rule destroy_order [THEN conjunct2, THEN conjunct2, rule_format, OF conjI, OF e(1) ld])
  have "\<exists>evs. trace (destroyEvent silent
               (setupDestroyHandler ?c True [OtherFunction 0] [OtherFunction 1] (newInstance [])))
            = trace (setupDestroyHandler ?c True [OtherFunction 0] [OtherFunction 1] (newInstance [])) @ evs
         \<and> callsOf evs = [CtrlMethod OnDestroy, OtherFunction 0, OtherFunction 1]
         \<and> last evs = ElementOff"
    using disposesOnDestroy_calls [OF a] f
    by (simp add: runDestroyHandler_silent destroyCalls_def del: runLinkFn.simps)
  moreover
  have "\<exists>evs. trace (destroyEvent silent (worldOf ?lc)) = trace (worldOf ?lc) @ evs
         \<and> callsOf evs = [CtrlMethod OnDestroy, HostBindingWatcher ''classes'' ''active'' ''isActive'',
                           ParentCheckNotifier 0]
         \<and> last evs = ElementOff"
    using disposesOnDestroy_calls [OF b] f
    by (simp add: runDestroyHandler_silent destroyCalls_def w del: runLinkFn.simps)
  moreover
  have "\<exists>evs. trace (destroyEvent silent (worldOf ?ld)) = trace (worldOf ?ld) @ evs
         \<and> callsOf evs = [InputWatcher ''value'' ''model'',
                           HostBindingWatcher ''classes'' ''active'' ''isActive'',
                           ParentCheckNotifier 0, AttrObserver ''title'' ''tip'']
         \<and> last evs = ElementOff"
    using disposesOnDestroy_calls [OF c] f
    by (simp add: runDestroyHandler_silent destroyCalls_def w del: runLinkFn.simps)
  ultimately show ?thesis by blast
qed

end
